theory Spec2Isabelle
  imports Complex_Main
begin

section \<open>Galvo mirror drivers (Galvo.py)\<close>

text \<open>
  Positions (microns), voltages, speeds and durations are Python floats; they are modelled
  as \<open>real\<close>, so NaN, infinities and rounding are outside the model. A method that
  mutates \<open>self\<close> takes the object and returns it updated, together with either the
  exception it raised or the value it returned. The LabJack is an external device: its
  state is threaded through every call as a value of an arbitrary type \<open>'b\<close>.
\<close>

subsection \<open>Exceptions\<close>

datatype error =
    ValueError            \<comment> \<open>the axis is neither "x" nor "z"\<close>
  | KeyError string       \<comment> \<open>a dictionary has no such key, or the message of a raised KeyError\<close>
  | TypeError             \<comment> \<open>a parameter is given twice in a call\<close>
  | IndexError            \<comment> \<open>\<open>bits[-1]\<close> of an empty sequence\<close>
  | UnboundLocalError     \<comment> \<open>a local variable is read before it was assigned\<close>
  | KeyboardInterrupt
  | InvalidSpeed          \<comment> \<open>planner input rejected (named by the specification)\<close>
  | BackendError string   \<comment> \<open>any other failure of the device layer\<close>

text \<open>What a call into the device layer can raise.\<close>

datatype backend_exn = Interrupted | IOFailure string

fun raised :: "backend_exn \<Rightarrow> error" where
  "raised Interrupted = KeyboardInterrupt"
| "raised (IOFailure m) = BackendError m"

subsection \<open>Position.py and Move.py\<close>

text \<open>
  The calibration constants and the sample rate live in modules that are not part of the
  sources at hand; they are parameters of the model.
\<close>

record calibration =
  volts_of_pos :: "string \<Rightarrow> real \<Rightarrow> real"
  pos_of_volts :: "string \<Rightarrow> real \<Rightarrow> real"
  bits_of_pos :: "string \<Rightarrow> real \<Rightarrow> int"
  sample_rate :: real

record Point =
  p_axis :: string
  p_pos :: real
  p_voltage :: real

text \<open>
  Modelled from the spec: class \<open>Point\<close> of Position.py is missing. A Point is built
  from a position or from a voltage, the other value is derived through the axis's
  calibration, and an axis outside the supported set is rejected. \<open>Point_pos\<close> is
  \<open>Point(axis, pos)\<close> and \<open>Point_voltage\<close> is \<open>Point(axis, voltage=v)\<close>.
\<close>

definition Point_pos :: "calibration \<Rightarrow> string \<Rightarrow> real \<Rightarrow> error + Point" where
  "Point_pos K ax p =
     (if ax \<notin> set [''x'', ''z''] then Inl ValueError
      else Inr \<lparr>p_axis = ax, p_pos = p, p_voltage = volts_of_pos K ax p\<rparr>)"

definition Point_voltage :: "calibration \<Rightarrow> string \<Rightarrow> real \<Rightarrow> error + Point" where
  "Point_voltage K ax v =
     (if ax \<notin> set [''x'', ''z''] then Inl ValueError
      else Inr \<lparr>p_axis = ax, p_pos = pos_of_volts K ax v, p_voltage = v\<rparr>)"

text \<open>
  Modelled from the spec: \<open>Point.__sub__\<close> of Position.py is missing. The difference of
  two Points is the Point of the difference of their positions (voltages are not
  subtracted), on the axis of the left operand.
\<close>

definition Point_sub :: "calibration \<Rightarrow> Point \<Rightarrow> Point \<Rightarrow> error + Point" where
  "Point_sub K a b = Point_pos K (p_axis a) (p_pos a - p_pos b)"

record Move =
  move_t :: real
  move_bits :: "int list"

text \<open>
  Modelled from the spec: class \<open>Move\<close> of Move.py is missing. A negative speed is
  rejected; speed 0 or equal endpoints give duration 0 and the single code of the
  destination; otherwise the duration is distance / speed, the number of samples is
  the ceiling of duration times sample rate, at least 2, the positions are interpolated
  linearly and converted to codes, and the last code is that of the destination.
\<close>

definition Move_init :: "calibration \<Rightarrow> string \<Rightarrow> real \<Rightarrow> real \<Rightarrow> real \<Rightarrow> error + Move" where
  "Move_init K ax pos_start pos_end speed =
     (if speed < 0 then Inl InvalidSpeed
      else if speed = 0 \<or> pos_start = pos_end then
        Inr \<lparr>move_t = 0, move_bits = [bits_of_pos K ax pos_end]\<rparr>
      else
        let d = \<bar>pos_end - pos_start\<bar> / speed;
            n = max 2 (nat \<lceil>d * sample_rate K\<rceil>)
        in Inr \<lparr>move_t = d,
                move_bits =
                  map (\<lambda>i. bits_of_pos K ax
                         (pos_start + (real i / real (n - 1)) * (pos_end - pos_start)))
                      [0..<n - 1]
                  @ [bits_of_pos K ax pos_end]\<rparr>)"

subsection \<open>The LabJack\<close>

type_synonym readback = "string \<rightharpoonup> real"

text \<open>
  \<open>open_labjack\<close> is \<open>False\<close> or a LabJack object with an updater and a streamer. Each
  of its five methods takes the device state and returns it with the value or the
  exception of the call. \<open>updater.update\<close> and \<open>updater.read\<close> return a dictionary from
  register names to voltages. \<open>update\<close> receives one code from a single driver and a tuple
  of codes from a group; \<open>load_data\<close> one sequence or a tuple of sequences.
\<close>

record 'b LabJack =
  updater_update :: "int list \<Rightarrow> 'b \<Rightarrow> (backend_exn + readback) \<times> 'b"
  updater_read :: "'b \<Rightarrow> (backend_exn + readback) \<times> 'b"
  streamer_stream_setup :: "'b \<Rightarrow> (backend_exn + unit) \<times> 'b"
  streamer_load_data :: "int list list \<Rightarrow> 'b \<Rightarrow> (backend_exn + unit) \<times> 'b"
  streamer_start_stream :: "real \<Rightarrow> 'b \<Rightarrow> (backend_exn + real) \<times> 'b"

subsection \<open>class GalvoDriver\<close>

text \<open>
  Field \<open>point\<close> is the attribute \<open>__point\<close>, \<open>point_history\<close> is \<open>_point_history\<close> and
  \<open>origin_point\<close> is \<open>_origin\<close>. Field \<open>voltage\<close> is an attribute the class does not
  declare: Python creates it on the object the first time it is assigned, and it is
  absent (\<open>None\<close>) before.
\<close>

record 'b GalvoDriver =
  axis :: string
  dac_name :: string
  open_labjack :: "'b LabJack option"
  point :: Point
  point_history :: "Point list"
  origin_point :: Point
  voltage :: "real option"

text \<open>The properties \<open>_pos\<close>/\<open>pos\<close>, \<open>origin\<close>, \<open>pos_history\<close>, \<open>_rel_point\<close>, \<open>rel_pos\<close>.\<close>

definition pos :: "'b GalvoDriver \<Rightarrow> real" where
  "pos s = p_pos (point s)"

definition origin :: "'b GalvoDriver \<Rightarrow> real" where
  "origin s = p_pos (origin_point s)"

definition pos_history :: "'b GalvoDriver \<Rightarrow> real list" where
  "pos_history s = map p_pos (point_history s)"

definition rel_point :: "calibration \<Rightarrow> 'b GalvoDriver \<Rightarrow> error + Point" where
  "rel_point K s = Point_sub K (point s) (origin_point s)"

definition rel_pos :: "calibration \<Rightarrow> 'b GalvoDriver \<Rightarrow> error + real" where
  "rel_pos K s = (case rel_point K s of Inl e \<Rightarrow> Inl e | Inr p \<Rightarrow> Inr (p_pos p))"

text \<open>The setters of \<open>_point\<close>, \<open>_pos\<close> and \<open>_voltage\<close>.\<close>

definition point_set :: "Point \<Rightarrow> 'b GalvoDriver \<Rightarrow> 'b GalvoDriver" where
  "point_set val s = s\<lparr>point_history := point_history s @ [point s], point := val\<rparr>"

definition pos_set ::
  "calibration \<Rightarrow> real \<Rightarrow> 'b GalvoDriver \<Rightarrow> (error + unit) \<times> 'b GalvoDriver" where
  "pos_set K val s =
     (case Point_pos K (axis s) val of
        Inl e \<Rightarrow> (Inl e, s)
      | Inr p \<Rightarrow> (Inr (), point_set p s))"

definition voltage_set ::
  "calibration \<Rightarrow> real \<Rightarrow> 'b GalvoDriver \<Rightarrow> (error + unit) \<times> 'b GalvoDriver" where
  "voltage_set K val s =
     (case Point_voltage K (axis s) val of
        Inl e \<Rightarrow> (Inl e, s)
      | Inr p \<Rightarrow> (Inr (), point_set p s))"

definition set_origin ::
  "calibration \<Rightarrow> real option \<Rightarrow> 'b GalvoDriver \<Rightarrow> (error + unit) \<times> 'b GalvoDriver" where
  "set_origin K orig s =
     (case orig of
        None \<Rightarrow> (Inr (), s\<lparr>origin_point := point s\<rparr>)
      | Some v \<Rightarrow>
          (case Point_pos K (axis s) v of
             Inl e \<Rightarrow> (Inl e, s)
           | Inr p \<Rightarrow> (Inr (), s\<lparr>origin_point := p\<rparr>)))"

definition reset_origin ::
  "calibration \<Rightarrow> 'b GalvoDriver \<Rightarrow> (error + unit) \<times> 'b GalvoDriver" where
  "reset_origin K s = set_origin K (Some 0) s"

text \<open>
  The body of the \<open>try\<close> of \<open>go_to\<close>. It returns the exception that left it, if any, and
  the locals \<open>actual_V\<close> and \<open>actual_t\<close>, each \<open>None\<close> while unassigned.
\<close>

definition go_to_try ::
  "'b LabJack \<Rightarrow> Move \<Rightarrow> real \<Rightarrow> 'b \<Rightarrow> error option \<times> readback option \<times> real option \<times> 'b" where
  "go_to_try lj move speed b =
     (if speed = 0 \<or> move_t move = 0 then
        (if move_bits move = [] then (Some IndexError, None, Some 0, b)
         else
           case updater_update lj [last (move_bits move)] b of
             (Inl x, b1) \<Rightarrow> (Some (raised x), None, Some 0, b1)
           | (Inr rb, b1) \<Rightarrow> (None, Some rb, Some 0, b1))
      else
        case streamer_stream_setup lj b of
          (Inl x, b1) \<Rightarrow> (Some (raised x), None, None, b1)
        | (Inr _, b1) \<Rightarrow>
            (case streamer_load_data lj [move_bits move] b1 of
               (Inl x, b2) \<Rightarrow> (Some (raised x), None, None, b2)
             | (Inr _, b2) \<Rightarrow>
                 (case streamer_start_stream lj (move_t move) b2 of
                    (Inl x, b3) \<Rightarrow> (Some (raised x), None, None, b3)
                  | (Inr t1, b3) \<Rightarrow>
                      (case updater_read lj b3 of
                         (Inl x, b4) \<Rightarrow> (Some (raised x), None, Some t1, b4)
                       | (Inr rb, b4) \<Rightarrow> (None, Some rb, Some t1, b4)))))"

text \<open>
  The handler \<open>except KeyboardInterrupt\<close>. It reads the device when \<open>actual_V\<close> is
  unassigned, assigns \<open>_voltage\<close> from the entry of the driver's register, and raises
  KeyboardInterrupt; an exception of one of its own statements leaves it earlier. The
  fallback of \<open>actual_t\<close> to \<open>move.t\<close> changes nothing that is observed, since the handler
  never returns a value.
\<close>

definition go_to_except ::
  "calibration \<Rightarrow> 'b LabJack \<Rightarrow> readback option \<Rightarrow> 'b GalvoDriver \<Rightarrow> 'b \<Rightarrow>
     error \<times> readback option \<times> 'b GalvoDriver \<times> 'b" where
  "go_to_except K lj actual_V s b =
     (case (case actual_V of Some rb \<Rightarrow> (Inr rb, b) | None \<Rightarrow> updater_read lj b) of
        (Inl x, b1) \<Rightarrow> (raised x, None, s, b1)
      | (Inr rb, b1) \<Rightarrow>
          (case rb (dac_name s) of
             None \<Rightarrow> (KeyError (dac_name s), Some rb, s, b1)
           | Some v \<Rightarrow>
               (case voltage_set K v s of
                  (Inl e, s1) \<Rightarrow> (e, Some rb, s1, b1)
                | (Inr _, s1) \<Rightarrow> (KeyboardInterrupt, Some rb, s1, b1))))"

text \<open>
  The \<open>finally\<close> clause: \<open>actual_point = Point(self.axis, voltage=actual_V[self.dac_name])\<close>.
  An exception raised here replaces the one that was propagating.
\<close>

definition go_to_finally ::
  "calibration \<Rightarrow> 'b GalvoDriver \<Rightarrow> readback option \<Rightarrow> error + Point" where
  "go_to_finally K s actual_V =
     (case actual_V of
        None \<Rightarrow> Inl UnboundLocalError
      | Some rb \<Rightarrow>
          (case rb (dac_name s) of
             None \<Rightarrow> Inl (KeyError (dac_name s))
           | Some v \<Rightarrow> Point_voltage K (axis s) v))"

definition go_to_labjack ::
  "calibration \<Rightarrow> 'b LabJack \<Rightarrow> Move \<Rightarrow> real \<Rightarrow> real \<Rightarrow> 'b GalvoDriver \<Rightarrow> 'b \<Rightarrow>
     (error + real \<times> real) \<times> 'b GalvoDriver \<times> 'b" where
  "go_to_labjack K lj move new_pos speed s b =
     (case go_to_try lj move speed b of
        (Some e, actual_V, actual_t, b1) \<Rightarrow>
          (if e = KeyboardInterrupt then
             (case go_to_except K lj actual_V s b1 of
                (e1, actual_V1, s1, b2) \<Rightarrow>
                  (case go_to_finally K s1 actual_V1 of
                     Inl e2 \<Rightarrow> (Inl e2, s1, b2)
                   | Inr _ \<Rightarrow> (Inl e1, s1, b2)))
           else
             (case go_to_finally K s actual_V of
                Inl e2 \<Rightarrow> (Inl e2, s, b1)
              | Inr _ \<Rightarrow> (Inl e, s, b1)))
      | (None, actual_V, actual_t, b1) \<Rightarrow>
          (case pos_set K new_pos s of
             (Inl e, s1) \<Rightarrow>
               (case go_to_finally K s1 actual_V of
                  Inl e2 \<Rightarrow> (Inl e2, s1, b1)
                | Inr _ \<Rightarrow> (Inl e, s1, b1))
           | (Inr _, s1) \<Rightarrow>
               (case go_to_finally K s1 actual_V of
                  Inl e2 \<Rightarrow> (Inl e2, s1, b1)
                | Inr actual_point \<Rightarrow>
                    (case actual_t of
                       None \<Rightarrow> (Inl UnboundLocalError, s1, b1)
                     | Some t \<Rightarrow> (Inr (p_pos actual_point, t), s1, b1)))))"

definition go_to ::
  "calibration \<Rightarrow> real \<Rightarrow> real \<Rightarrow> 'b GalvoDriver \<Rightarrow> 'b \<Rightarrow>
     (error + real \<times> real) \<times> 'b GalvoDriver \<times> 'b" where
  "go_to K new_pos speed s b =
     (let new_pos = new_pos + origin s in
      case Move_init K (axis s) (pos s) new_pos speed of
        Inl e \<Rightarrow> (Inl e, s, b)
      | Inr move \<Rightarrow>
          (case open_labjack s of
             Some lj \<Rightarrow> go_to_labjack K lj move new_pos speed s b
           | None \<Rightarrow>
               (case pos_set K new_pos s of
                  (Inl e, s1) \<Rightarrow> (Inl e, s1, b)
                | (Inr _, s1) \<Rightarrow>
                    (case Point_pos K (axis s1) (pos s1) of
                       Inl e \<Rightarrow> (Inl e, s1, b)
                     | Inr actual_point \<Rightarrow> (Inr (p_pos actual_point, 0), s1, b)))))"

definition reset_pos ::
  "calibration \<Rightarrow> 'b GalvoDriver \<Rightarrow> 'b \<Rightarrow> (error + unit) \<times> 'b GalvoDriver \<times> 'b" where
  "reset_pos K s b =
     (case go_to K 0 0 s b of
        (Inl e, s1, b1) \<Rightarrow> (Inl e, s1, b1)
      | (Inr _, s1, b1) \<Rightarrow> (Inr (), s1, b1))"

text \<open>
  The constructor. \<open>_origin\<close> has no value before \<open>set_origin\<close> assigns it; the record is
  built with the initial Point in that field, which \<open>set_origin\<close> overwrites at once
  without reading it. A constructor that raises returns no object.
\<close>

definition GalvoDriver_init ::
  "calibration \<Rightarrow> string \<Rightarrow> string \<Rightarrow> real \<Rightarrow> 'b LabJack option \<Rightarrow> 'b \<Rightarrow>
     (error + 'b GalvoDriver) \<times> 'b" where
  "GalvoDriver_init K ax dac pos_init lj b =
     (if ax \<notin> set [''x'', ''z''] then (Inl ValueError, b)
      else
        case Point_pos K ax pos_init of
          Inl e \<Rightarrow> (Inl e, b)
        | Inr p0 \<Rightarrow>
            (case set_origin K (Some pos_init)
                    \<lparr>axis = ax, dac_name = dac, open_labjack = lj, point = p0,
                     point_history = [p0], origin_point = p0, voltage = None\<rparr> of
               (Inl e, s1) \<Rightarrow> (Inl e, b)
             | (Inr _, s1) \<Rightarrow>
                 (case go_to K pos_init 0 s1 b of
                    (Inl e, s2, b1) \<Rightarrow> (Inl e, b1)
                  | (Inr _, s2, b1) \<Rightarrow> (Inr s2, b1))))"

text \<open>
  Modelled from the spec: class \<open>MoveMultiDim\<close> of Move.py is missing. One Move per axis
  with the shared speed; the duration is the largest of theirs; every code sequence is
  padded with its last code to the longest length. \<open>multi_bits\<close> holds the sequences in
  the order of the axes.
\<close>

record MoveMultiDim =
  multi_t :: real
  multi_bits :: "int list list"

fun axis_moves ::
  "calibration \<Rightarrow> string list \<Rightarrow> (string \<rightharpoonup> real) \<Rightarrow> (string \<rightharpoonup> real) \<Rightarrow> real \<Rightarrow>
     error + Move list" where
  "axis_moves K [] pos_start pos_end speed = Inr []"
| "axis_moves K (ax # axs) pos_start pos_end speed =
     (case pos_start ax of
        None \<Rightarrow> Inl (KeyError ax)
      | Some p0 \<Rightarrow>
          (case pos_end ax of
             None \<Rightarrow> Inl (KeyError ax)
           | Some p1 \<Rightarrow>
               (case Move_init K ax p0 p1 speed of
                  Inl e \<Rightarrow> Inl e
                | Inr m \<Rightarrow>
                    (case axis_moves K axs pos_start pos_end speed of
                       Inl e \<Rightarrow> Inl e
                     | Inr ms \<Rightarrow> Inr (m # ms)))))"

definition MoveMultiDim_init ::
  "calibration \<Rightarrow> string list \<Rightarrow> (string \<rightharpoonup> real) \<Rightarrow> (string \<rightharpoonup> real) \<Rightarrow> real \<Rightarrow>
     error + MoveMultiDim" where
  "MoveMultiDim_init K axes pos_start pos_end speed =
     (case axis_moves K axes pos_start pos_end speed of
        Inl e \<Rightarrow> Inl e
      | Inr ms \<Rightarrow>
          let n = fold max (map (\<lambda>m. length (move_bits m)) ms) 0
          in Inr \<lparr>multi_t = fold max (map move_t ms) 0,
                  multi_bits =
                    map (\<lambda>m. move_bits m
                           @ replicate (n - length (move_bits m)) (last (move_bits m))) ms\<rparr>)"

subsection \<open>class GalvoDrivers\<close>

text \<open>
  Field \<open>galvos\<close> is the dictionary \<open>_galvos\<close> of the per-axis drivers; \<open>g_axis\<close>,
  \<open>g_dac_name\<close> and \<open>g_open_labjack\<close> are the attributes \<open>axis\<close>, \<open>dac_name\<close> and
  \<open>open_labjack\<close> of the group.
\<close>

record 'b GalvoDrivers =
  g_axis :: "string list"
  g_dac_name :: "string \<rightharpoonup> string"
  g_open_labjack :: "'b LabJack option"
  galvos :: "string \<rightharpoonup> 'b GalvoDriver"

text \<open>The message of the KeyError of the constructor, with the axis between quotes.\<close>

definition missing_msg :: "string \<Rightarrow> string \<Rightarrow> string" where
  "missing_msg name ax =
     ''Input '' @ name @ '' axes is missing '' @ [CHR 0x27] @ ax @ [CHR 0x27] @ ''-axis''"

text \<open>The first loop of the constructor: it only looks the two dictionaries up.\<close>

fun check_config ::
  "string list \<Rightarrow> (string \<rightharpoonup> string) \<Rightarrow> (string \<rightharpoonup> real) \<Rightarrow> error option" where
  "check_config [] dac pos_init = None"
| "check_config (ax # axs) dac pos_init =
     (if dac ax = None then Some (KeyError (missing_msg ''dac_name'' ax))
      else if pos_init ax = None then Some (KeyError (missing_msg ''pos_init'' ax))
      else check_config axs dac pos_init)"

text \<open>The second loop: one GalvoDriver per axis, each with \<open>open_labjack=False\<close>.\<close>

fun make_galvos ::
  "calibration \<Rightarrow> string list \<Rightarrow> (string \<rightharpoonup> string) \<Rightarrow> (string \<rightharpoonup> real) \<Rightarrow>
     (string \<rightharpoonup> 'b GalvoDriver) \<Rightarrow> 'b \<Rightarrow> (error + (string \<rightharpoonup> 'b GalvoDriver)) \<times> 'b" where
  "make_galvos K [] dac pos_init gs b = (Inr gs, b)"
| "make_galvos K (ax # axs) dac pos_init gs b =
     (case dac ax of
        None \<Rightarrow> (Inl (KeyError ax), b)
      | Some d \<Rightarrow>
          (case pos_init ax of
             None \<Rightarrow> (Inl (KeyError ax), b)
           | Some p \<Rightarrow>
               (case GalvoDriver_init K ax d p None b of
                  (Inl e, b1) \<Rightarrow> (Inl e, b1)
                | (Inr c, b1) \<Rightarrow> make_galvos K axs dac pos_init (gs(ax \<mapsto> c)) b1)))"

text \<open>The properties \<open>pos\<close> and \<open>origin\<close> of the group: a dictionary built axis by axis.\<close>

fun collect ::
  "('b GalvoDriver \<Rightarrow> real) \<Rightarrow> string list \<Rightarrow> (string \<rightharpoonup> 'b GalvoDriver) \<Rightarrow>
     (string \<rightharpoonup> real) \<Rightarrow> error + (string \<rightharpoonup> real)" where
  "collect f [] gs acc = Inr acc"
| "collect f (ax # axs) gs acc =
     (case gs ax of
        None \<Rightarrow> Inl (KeyError ax)
      | Some c \<Rightarrow> collect f axs gs (acc(ax \<mapsto> f c)))"

definition g_pos :: "'b GalvoDrivers \<Rightarrow> error + (string \<rightharpoonup> real)" where
  "g_pos g = collect pos (g_axis g) (galvos g) Map.empty"

definition g_origin :: "'b GalvoDrivers \<Rightarrow> error + (string \<rightharpoonup> real)" where
  "g_origin g = collect origin (g_axis g) (galvos g) Map.empty"

text \<open>
  \<open>GalvoDrivers.set_origin(**orig)\<close>. The keywords are the list of their (name, value)
  pairs, so that \<open>not orig\<close> is a test for the empty list; a name is looked up with
  \<open>map_of\<close>. With no keyword every driver takes its current Point as origin. Otherwise
  a KeyError of \<open>self._galvos[ax].set_origin(orig[ax])\<close> is caught and the loop goes on.
\<close>

fun g_set_origin_loop ::
  "calibration \<Rightarrow> string list \<Rightarrow> (string \<times> real) list \<Rightarrow> (string \<rightharpoonup> 'b GalvoDriver) \<Rightarrow>
     (error + unit) \<times> (string \<rightharpoonup> 'b GalvoDriver)" where
  "g_set_origin_loop K [] orig gs = (Inr (), gs)"
| "g_set_origin_loop K (ax # axs) orig gs =
     (if orig = [] then
        (case gs ax of
           None \<Rightarrow> (Inl (KeyError ax), gs)
         | Some c \<Rightarrow>
             (case set_origin K None c of
                (Inl e, c1) \<Rightarrow> (Inl e, gs(ax \<mapsto> c1))
              | (Inr _, c1) \<Rightarrow> g_set_origin_loop K axs orig (gs(ax \<mapsto> c1))))
      else
        (case gs ax of
           None \<Rightarrow> g_set_origin_loop K axs orig gs
         | Some c \<Rightarrow>
             (case map_of orig ax of
                None \<Rightarrow> g_set_origin_loop K axs orig gs
              | Some v \<Rightarrow>
                  (case set_origin K (Some v) c of
                     (Inl (KeyError k), c1) \<Rightarrow> g_set_origin_loop K axs orig (gs(ax \<mapsto> c1))
                   | (Inl e, c1) \<Rightarrow> (Inl e, gs(ax \<mapsto> c1))
                   | (Inr _, c1) \<Rightarrow> g_set_origin_loop K axs orig (gs(ax \<mapsto> c1))))))"

definition g_set_origin ::
  "calibration \<Rightarrow> (string \<times> real) list \<Rightarrow> 'b GalvoDrivers \<Rightarrow> (error + unit) \<times> 'b GalvoDrivers" where
  "g_set_origin K orig g =
     (case g_set_origin_loop K (g_axis g) orig (galvos g) of
        (r, gs) \<Rightarrow> (r, g\<lparr>galvos := gs\<rparr>))"

text \<open>
  \<open>GalvoDrivers.go_to\<close>, first loop: every driver moves by its own \<open>go_to\<close> and reports
  its new absolute position.
\<close>

fun go_to_children ::
  "calibration \<Rightarrow> string list \<Rightarrow> (string \<rightharpoonup> real) \<Rightarrow> real \<Rightarrow> (string \<rightharpoonup> 'b GalvoDriver) \<Rightarrow>
     (string \<rightharpoonup> real) \<Rightarrow> 'b \<Rightarrow>
     (error + (string \<rightharpoonup> real)) \<times> (string \<rightharpoonup> 'b GalvoDriver) \<times> 'b" where
  "go_to_children K [] new_pos speed gs acc b = (Inr acc, gs, b)"
| "go_to_children K (ax # axs) new_pos speed gs acc b =
     (case gs ax of
        None \<Rightarrow> (Inl (KeyError ax), gs, b)
      | Some c \<Rightarrow>
          (case new_pos ax of
             None \<Rightarrow> (Inl (KeyError ax), gs, b)
           | Some p \<Rightarrow>
               (case go_to K p speed c b of
                  (Inl e, c1, b1) \<Rightarrow> (Inl e, gs(ax \<mapsto> c1), b1)
                | (Inr (actual, t), c1, b1) \<Rightarrow>
                    go_to_children K axs new_pos speed (gs(ax \<mapsto> c1)) (acc(ax \<mapsto> actual)) b1)))"

text \<open>The body of the \<open>try\<close> of the group's \<open>go_to\<close>.\<close>

definition g_go_to_try ::
  "'b LabJack \<Rightarrow> MoveMultiDim \<Rightarrow> real \<Rightarrow> 'b \<Rightarrow>
     error option \<times> readback option \<times> real option \<times> 'b" where
  "g_go_to_try lj move speed b =
     (if speed = 0 \<or> multi_t move = 0 then
        (if [] \<in> set (multi_bits move) then (Some IndexError, None, None, b)
         else
           case updater_update lj (map last (multi_bits move)) b of
             (Inl x, b1) \<Rightarrow> (Some (raised x), None, Some 0, b1)
           | (Inr rb, b1) \<Rightarrow> (None, Some rb, Some 0, b1))
      else
        case streamer_stream_setup lj b of
          (Inl x, b1) \<Rightarrow> (Some (raised x), None, None, b1)
        | (Inr _, b1) \<Rightarrow>
            (case streamer_load_data lj (multi_bits move) b1 of
               (Inl x, b2) \<Rightarrow> (Some (raised x), None, None, b2)
             | (Inr _, b2) \<Rightarrow>
                 (case streamer_start_stream lj (multi_t move) b2 of
                    (Inl x, b3) \<Rightarrow> (Some (raised x), None, None, b3)
                  | (Inr t1, b3) \<Rightarrow>
                      (case updater_read lj b3 of
                         (Inl x, b4) \<Rightarrow> (Some (raised x), None, Some t1, b4)
                       | (Inr rb, b4) \<Rightarrow> (None, Some rb, Some t1, b4)))))"

text \<open>
  The loop of the handler: \<open>self._galvos[ax].voltage = actual_V[self._galvos[ax].dac_name]\<close>.
  The assignment is to the attribute \<open>voltage\<close> of the driver.
\<close>

fun set_stopped ::
  "string list \<Rightarrow> readback \<Rightarrow> (string \<rightharpoonup> 'b GalvoDriver) \<Rightarrow>
     error option \<times> (string \<rightharpoonup> 'b GalvoDriver)" where
  "set_stopped [] rb gs = (None, gs)"
| "set_stopped (ax # axs) rb gs =
     (case gs ax of
        None \<Rightarrow> (Some (KeyError ax), gs)
      | Some c \<Rightarrow>
          (case rb (dac_name c) of
             None \<Rightarrow> (Some (KeyError (dac_name c)), gs)
           | Some v \<Rightarrow> set_stopped axs rb (gs(ax \<mapsto> c\<lparr>voltage := Some v\<rparr>))))"

definition g_go_to_except ::
  "'b LabJack \<Rightarrow> string list \<Rightarrow> readback option \<Rightarrow> (string \<rightharpoonup> 'b GalvoDriver) \<Rightarrow> 'b \<Rightarrow>
     error \<times> readback option \<times> (string \<rightharpoonup> 'b GalvoDriver) \<times> 'b" where
  "g_go_to_except lj axes actual_V gs b =
     (case (case actual_V of Some rb \<Rightarrow> (Inr rb, b) | None \<Rightarrow> updater_read lj b) of
        (Inl x, b1) \<Rightarrow> (raised x, None, gs, b1)
      | (Inr rb, b1) \<Rightarrow>
          (case set_stopped axes rb gs of
             (Some e, gs1) \<Rightarrow> (e, Some rb, gs1, b1)
           | (None, gs1) \<Rightarrow> (KeyboardInterrupt, Some rb, gs1, b1)))"

text \<open>
  The \<open>finally\<close> clause of the group:
  \<open>actual_pos[ax] = Point(ax, voltage=actual_V[self._galvos[ax].dac_name]).pos\<close> for every axis.
\<close>

fun g_go_to_finally ::
  "calibration \<Rightarrow> string list \<Rightarrow> (string \<rightharpoonup> 'b GalvoDriver) \<Rightarrow> readback option \<Rightarrow>
     (string \<rightharpoonup> real) \<Rightarrow> error + (string \<rightharpoonup> real)" where
  "g_go_to_finally K [] gs actual_V acc = Inr acc"
| "g_go_to_finally K (ax # axs) gs actual_V acc =
     (case actual_V of
        None \<Rightarrow> Inl UnboundLocalError
      | Some rb \<Rightarrow>
          (case gs ax of
             None \<Rightarrow> Inl (KeyError ax)
           | Some c \<Rightarrow>
               (case rb (dac_name c) of
                  None \<Rightarrow> Inl (KeyError (dac_name c))
                | Some v \<Rightarrow>
                    (case Point_voltage K ax v of
                       Inl e \<Rightarrow> Inl e
                     | Inr p \<Rightarrow> g_go_to_finally K axs gs actual_V (acc(ax \<mapsto> p_pos p))))))"

text \<open>Without a device: \<open>actual_pos[ax] = Point(ax, new_pos[ax]).pos\<close> for every axis.\<close>

fun no_daq_pos ::
  "calibration \<Rightarrow> string list \<Rightarrow> (string \<rightharpoonup> real) \<Rightarrow> (string \<rightharpoonup> real) \<Rightarrow>
     error + (string \<rightharpoonup> real)" where
  "no_daq_pos K [] new_pos acc = Inr acc"
| "no_daq_pos K (ax # axs) new_pos acc =
     (case new_pos ax of
        None \<Rightarrow> Inl (KeyError ax)
      | Some v \<Rightarrow>
          (case Point_pos K ax v of
             Inl e \<Rightarrow> Inl e
           | Inr p \<Rightarrow> no_daq_pos K axs new_pos (acc(ax \<mapsto> p_pos p))))"

definition g_go_to_labjack ::
  "calibration \<Rightarrow> 'b LabJack \<Rightarrow> MoveMultiDim \<Rightarrow> real \<Rightarrow> 'b GalvoDrivers \<Rightarrow> 'b \<Rightarrow>
     (error + (string \<rightharpoonup> real) \<times> real) \<times> 'b GalvoDrivers \<times> 'b" where
  "g_go_to_labjack K lj move speed g b =
     (case g_go_to_try lj move speed b of
        (Some e, actual_V, actual_t, b1) \<Rightarrow>
          (if e = KeyboardInterrupt then
             (case g_go_to_except lj (g_axis g) actual_V (galvos g) b1 of
                (e1, actual_V1, gs1, b2) \<Rightarrow>
                  (case g_go_to_finally K (g_axis g) gs1 actual_V1 Map.empty of
                     Inl e2 \<Rightarrow> (Inl e2, g\<lparr>galvos := gs1\<rparr>, b2)
                   | Inr _ \<Rightarrow> (Inl e1, g\<lparr>galvos := gs1\<rparr>, b2)))
           else
             (case g_go_to_finally K (g_axis g) (galvos g) actual_V Map.empty of
                Inl e2 \<Rightarrow> (Inl e2, g, b1)
              | Inr _ \<Rightarrow> (Inl e, g, b1)))
      | (None, actual_V, actual_t, b1) \<Rightarrow>
          (case g_go_to_finally K (g_axis g) (galvos g) actual_V Map.empty of
             Inl e2 \<Rightarrow> (Inl e2, g, b1)
           | Inr actual_pos \<Rightarrow>
               (case actual_t of
                  None \<Rightarrow> (Inl UnboundLocalError, g, b1)
                | Some t \<Rightarrow> (Inr (actual_pos, t), g, b1))))"

definition g_go_to ::
  "calibration \<Rightarrow> real \<Rightarrow> (string \<rightharpoonup> real) \<Rightarrow> 'b GalvoDrivers \<Rightarrow> 'b \<Rightarrow>
     (error + (string \<rightharpoonup> real) \<times> real) \<times> 'b GalvoDrivers \<times> 'b" where
  "g_go_to K speed new_pos g b =
     (case g_pos g of
        Inl e \<Rightarrow> (Inl e, g, b)
      | Inr original_pos \<Rightarrow>
          (case go_to_children K (g_axis g) new_pos speed (galvos g) Map.empty b of
             (Inl e, gs, b1) \<Rightarrow> (Inl e, g\<lparr>galvos := gs\<rparr>, b1)
           | (Inr new_abs_pos, gs, b1) \<Rightarrow>
               (case MoveMultiDim_init K (g_axis g) original_pos new_abs_pos speed of
                  Inl e \<Rightarrow> (Inl e, g\<lparr>galvos := gs\<rparr>, b1)
                | Inr move \<Rightarrow>
                    (case g_open_labjack g of
                       Some lj \<Rightarrow> g_go_to_labjack K lj move speed (g\<lparr>galvos := gs\<rparr>) b1
                     | None \<Rightarrow>
                         (case no_daq_pos K (g_axis g) new_pos Map.empty of
                            Inl e \<Rightarrow> (Inl e, g\<lparr>galvos := gs\<rparr>, b1)
                          | Inr actual_pos \<Rightarrow> (Inr (actual_pos, 0), g\<lparr>galvos := gs\<rparr>, b1))))))"

text \<open>
  The constructor of the group. Its last statement is \<open>self.go_to(**pos_init, speed=0)\<close>:
  a key \<open>speed\<close> or \<open>self\<close> in \<open>pos_init\<close> gives that parameter twice, which Python
  refuses with a TypeError before the method runs.
\<close>

definition GalvoDrivers_init ::
  "calibration \<Rightarrow> string list \<Rightarrow> (string \<rightharpoonup> string) \<Rightarrow> (string \<rightharpoonup> real) \<Rightarrow>
     'b LabJack option \<Rightarrow> 'b \<Rightarrow> (error + 'b GalvoDrivers) \<times> 'b" where
  "GalvoDrivers_init K axes dac pos_init lj b =
     (case check_config axes dac pos_init of
        Some e \<Rightarrow> (Inl e, b)
      | None \<Rightarrow>
          (case make_galvos K axes dac pos_init Map.empty b of
             (Inl e, b1) \<Rightarrow> (Inl e, b1)
           | (Inr gs, b1) \<Rightarrow>
               (if pos_init ''speed'' \<noteq> None \<or> pos_init ''self'' \<noteq> None then (Inl TypeError, b1)
                else
                  case g_go_to K 0 pos_init
                         \<lparr>g_axis = axes, g_dac_name = dac, g_open_labjack = lj, galvos = gs\<rparr> b1 of
                    (Inl e, g1, b2) \<Rightarrow> (Inl e, b2)
                  | (Inr _, g1, b2) \<Rightarrow> (Inr g1, b2))))"

text \<open>
  The same constructor, returning in addition the axes for which it called
  \<open>GalvoDriver(...)\<close>, in the order of the calls and whether the call returned or raised:
  the per-axis controllers that the run has built or started to build when it ends.
\<close>

fun make_galvos_log ::
  "calibration \<Rightarrow> string list \<Rightarrow> (string \<rightharpoonup> string) \<Rightarrow> (string \<rightharpoonup> real) \<Rightarrow>
     (string \<rightharpoonup> 'b GalvoDriver) \<Rightarrow> string list \<Rightarrow> 'b \<Rightarrow>
     (error + (string \<rightharpoonup> 'b GalvoDriver)) \<times> string list \<times> 'b" where
  "make_galvos_log K [] dac pos_init gs calls b = (Inr gs, calls, b)"
| "make_galvos_log K (ax # axs) dac pos_init gs calls b =
     (case dac ax of
        None \<Rightarrow> (Inl (KeyError ax), calls, b)
      | Some d \<Rightarrow>
          (case pos_init ax of
             None \<Rightarrow> (Inl (KeyError ax), calls, b)
           | Some p \<Rightarrow>
               (case GalvoDriver_init K ax d p None b of
                  (Inl e, b1) \<Rightarrow> (Inl e, calls @ [ax], b1)
                | (Inr c, b1) \<Rightarrow>
                    make_galvos_log K axs dac pos_init (gs(ax \<mapsto> c)) (calls @ [ax]) b1)))"

definition GalvoDrivers_init_log ::
  "calibration \<Rightarrow> string list \<Rightarrow> (string \<rightharpoonup> string) \<Rightarrow> (string \<rightharpoonup> real) \<Rightarrow>
     'b LabJack option \<Rightarrow> 'b \<Rightarrow> (error + 'b GalvoDrivers) \<times> string list \<times> 'b" where
  "GalvoDrivers_init_log K axes dac pos_init lj b =
     (case check_config axes dac pos_init of
        Some e \<Rightarrow> (Inl e, [], b)
      | None \<Rightarrow>
          (case make_galvos_log K axes dac pos_init Map.empty [] b of
             (Inl e, calls, b1) \<Rightarrow> (Inl e, calls, b1)
           | (Inr gs, calls, b1) \<Rightarrow>
               (if pos_init ''speed'' \<noteq> None \<or> pos_init ''self'' \<noteq> None then (Inl TypeError, calls, b1)
                else
                  case g_go_to K 0 pos_init
                         \<lparr>g_axis = axes, g_dac_name = dac, g_open_labjack = lj, galvos = gs\<rparr> b1 of
                    (Inl e, g1, b2) \<Rightarrow> (Inl e, calls, b2)
                  | (Inr _, g1, b2) \<Rightarrow> (Inr g1, calls, b2))))"

subsection \<open>States that the public methods produce\<close>

text \<open>
  A driver is reachable when a constructor call returned it, or when it is a reachable
  driver after \<open>set_origin\<close> or \<open>go_to\<close> (whatever their outcome: an exception leaves the
  object as it was at the raise), or after its group assigned the attribute \<open>voltage\<close>.
  \<open>reset_origin\<close> and \<open>reset_pos\<close> are instances of the two methods.
\<close>

inductive reachable :: "calibration \<Rightarrow> 'b GalvoDriver \<Rightarrow> bool" for K :: calibration where
  constructed: "GalvoDriver_init K ax dac p lj b = (Inr s, b') \<Longrightarrow> reachable K s"
| after_set_origin: "reachable K s \<Longrightarrow> set_origin K orig s = (r, s') \<Longrightarrow> reachable K s'"
| after_go_to: "reachable K s \<Longrightarrow> go_to K new_pos speed s b = (r, s', b') \<Longrightarrow> reachable K s'"
| after_voltage: "reachable K s \<Longrightarrow> reachable K (s\<lparr>voltage := Some v\<rparr>)"

text \<open>
  What the constructor of a group establishes: every declared axis has its driver in
  \<open>_galvos\<close>, built for that axis, and the axis is a supported one.
\<close>

definition group_ok :: "'b GalvoDrivers \<Rightarrow> bool" where
  "group_ok g =
     (\<forall>ax \<in> set (g_axis g). \<exists>c. galvos g ax = Some c \<and> axis c = ax \<and> ax \<in> set [''x'', ''z''])"

text \<open>
  What holds of the dictionary \<open>_galvos\<close>: each driver is stored under its own axis, a
  supported one, and has no device; and each driver carries the register that \<open>dac_name\<close>
  gives for its axis.
\<close>

definition children_ok :: "(string \<rightharpoonup> 'b GalvoDriver) \<Rightarrow> bool" where
  "children_ok gs =
     (\<forall>ax c. gs ax = Some c \<longrightarrow>
        axis c = ax \<and> (ax = ''x'' \<or> ax = ''z'') \<and> open_labjack c = None)"

definition children_dac :: "(string \<rightharpoonup> string) \<Rightarrow> (string \<rightharpoonup> 'b GalvoDriver) \<Rightarrow> bool" where
  "children_dac dac gs = (\<forall>ax c. gs ax = Some c \<longrightarrow> dac ax = Some (dac_name c))"

text \<open>The attributes that \<open>go_to\<close> never assigns.\<close>

definition same_frame :: "'b GalvoDriver \<Rightarrow> 'b GalvoDriver \<Rightarrow> bool" where
  "same_frame s s' \<longleftrightarrow>
     axis s' = axis s \<and> dac_name s' = dac_name s \<and> open_labjack s' = open_labjack s \<and>
     origin_point s' = origin_point s \<and> voltage s' = voltage s"

subsection \<open>A concrete configuration\<close>

text \<open>
  A calibration of one volt per millimetre, a device that records the calls it receives
  and reads back 0.04 V on DAC0 and 0.12 V on DAC1, and whose stream is interrupted when
  \<open>stop\<close> is set.
\<close>

definition K0 :: calibration where
  "K0 = \<lparr>volts_of_pos = (\<lambda>ax p. p / 1000), pos_of_volts = (\<lambda>ax v. v * 1000),
          bits_of_pos = (\<lambda>ax p. \<lfloor>p\<rfloor>), sample_rate = 1 / 5\<rparr>"

definition rb0 :: readback where
  "rb0 = [''DAC0'' \<mapsto> 4 / 100, ''DAC1'' \<mapsto> 12 / 100]"

definition lj0 :: "bool \<Rightarrow> string list LabJack" where
  "lj0 stop =
     \<lparr>updater_update = (\<lambda>codes b. (Inr rb0, b @ [''update''])),
      updater_read = (\<lambda>b. (Inr rb0, b @ [''read''])),
      streamer_stream_setup = (\<lambda>b. (Inr (), b @ [''stream_setup''])),
      streamer_load_data = (\<lambda>codes b. (Inr (), b @ [''load_data''])),
      streamer_start_stream =
        (\<lambda>t b. (if stop then Inl Interrupted else Inr t, b @ [''start_stream'']))\<rparr>"

text \<open>The Point at position \<open>p\<close> under \<open>K0\<close>, and the driver that
  \<open>GalvoDriver(ax, dac, pos_init=0, open_labjack=lj)\<close> returns under \<open>K0\<close>.\<close>

definition P0 :: "string \<Rightarrow> real \<Rightarrow> Point" where
  "P0 ax p = \<lparr>p_axis = ax, p_pos = p, p_voltage = p / 1000\<rparr>"

definition driver0 :: "string \<Rightarrow> string \<Rightarrow> string list LabJack option \<Rightarrow> string list GalvoDriver" where
  "driver0 ax dac lj =
     \<lparr>axis = ax, dac_name = dac, open_labjack = lj, point = P0 ax 0,
      point_history = [P0 ax 0, P0 ax 0], origin_point = P0 ax 0, voltage = None\<rparr>"

definition group0 :: "string list LabJack option \<Rightarrow> string list GalvoDrivers" where
  "group0 lj =
     \<lparr>g_axis = [''x'', ''z''],
      g_dac_name = [''x'' \<mapsto> ''DAC0'', ''z'' \<mapsto> ''DAC1''],
      g_open_labjack = lj,
      galvos = [''x'' \<mapsto> (driver0 ''x'' ''DAC0'' None)\<lparr>point_history := [P0 ''x'' 0, P0 ''x'' 0, P0 ''x'' 0]\<rparr>,
                ''z'' \<mapsto> (driver0 ''z'' ''DAC1'' None)\<lparr>point_history := [P0 ''z'' 0, P0 ''z'' 0, P0 ''z'' 0]\<rparr>]\<rparr>"

section \<open>Auxiliary facts\<close>

subsection \<open>Points, frames and reachable drivers\<close>

lemma raised_not_ValueError: "raised x \<noteq> ValueError"
  by (cases x) simp_all

lemma Point_pos_supported:
  "ax = ''x'' \<or> ax = ''z'' \<Longrightarrow>
     Point_pos K ax p = Inr \<lparr>p_axis = ax, p_pos = p, p_voltage = volts_of_pos K ax p\<rparr>"
  by (auto simp: Point_pos_def)

lemma Point_voltage_supported:
  "ax = ''x'' \<or> ax = ''z'' \<Longrightarrow>
     Point_voltage K ax v = Inr \<lparr>p_axis = ax, p_pos = pos_of_volts K ax v, p_voltage = v\<rparr>"
  by (auto simp: Point_voltage_def)

lemma Point_pos_error: "Point_pos K ax p = Inl e \<Longrightarrow> e = ValueError \<and> ax \<noteq> ''x'' \<and> ax \<noteq> ''z''"
  by (auto simp: Point_pos_def split: if_splits)

lemma Point_voltage_error: "Point_voltage K ax p = Inl e \<Longrightarrow> e = ValueError \<and> ax \<noteq> ''x'' \<and> ax \<noteq> ''z''"
  by (auto simp: Point_voltage_def split: if_splits)


lemma pos_set_cases:
  "pos_set K v s = (r, s') \<Longrightarrow>
     (r = Inl ValueError \<and> s' = s \<and> axis s \<noteq> ''x'' \<and> axis s \<noteq> ''z'') \<or>
     (r = Inr () \<and> (axis s = ''x'' \<or> axis s = ''z'') \<and>
      s' = s\<lparr>point_history := point_history s @ [point s],
             point := \<lparr>p_axis = axis s, p_pos = v, p_voltage = volts_of_pos K (axis s) v\<rparr>\<rparr>)"
  by (auto simp: pos_set_def point_set_def Point_pos_def split: if_splits)

lemma voltage_set_cases:
  "voltage_set K v s = (r, s') \<Longrightarrow>
     (r = Inl ValueError \<and> s' = s \<and> axis s \<noteq> ''x'' \<and> axis s \<noteq> ''z'') \<or>
     (r = Inr () \<and> (axis s = ''x'' \<or> axis s = ''z'') \<and>
      s' = s\<lparr>point_history := point_history s @ [point s],
             point := \<lparr>p_axis = axis s, p_pos = pos_of_volts K (axis s) v, p_voltage = v\<rparr>\<rparr>)"
  by (auto simp: voltage_set_def point_set_def Point_voltage_def split: if_splits)


lemma pos_set_frame: "pos_set K v s = (r, s') \<Longrightarrow> same_frame s s'"
  by (auto simp: pos_set_def point_set_def same_frame_def split: sum.splits)

lemma voltage_set_frame: "voltage_set K v s = (r, s') \<Longrightarrow> same_frame s s'"
  by (auto simp: voltage_set_def point_set_def same_frame_def split: sum.splits)

lemma same_frame_refl: "same_frame s s"
  by (simp add: same_frame_def)

lemma go_to_except_frame:
  "go_to_except K lj aV s b = (e, aV', s', b') \<Longrightarrow> same_frame s s'"
  unfolding go_to_except_def
  by (auto split: option.splits sum.splits prod.splits
      intro: same_frame_refl voltage_set_frame)

lemma go_to_labjack_frame:
  "go_to_labjack K lj move new_pos speed s b = (r, s', b') \<Longrightarrow> same_frame s s'"
  unfolding go_to_labjack_def
  by (auto split: option.splits sum.splits prod.splits if_splits
      intro: same_frame_refl pos_set_frame go_to_except_frame)

lemma go_to_frame:
  "go_to K new_pos speed s b = (r, s', b') \<Longrightarrow> same_frame s s'"
  unfolding go_to_def Let_def
  by (auto split: option.splits sum.splits prod.splits
      intro: same_frame_refl pos_set_frame go_to_labjack_frame)


lemma set_origin_axis: "set_origin K orig s = (r, s') \<Longrightarrow> axis s' = axis s"
  by (auto simp: set_origin_def split: option.splits sum.splits)


lemma GalvoDriver_init_axis_supported:
  assumes "GalvoDriver_init K ax dac p lj b = (Inr s, b')"
  shows "ax = ''x'' \<or> ax = ''z''"
  using assms unfolding GalvoDriver_init_def by (simp split: if_splits)


lemma set_origin_Some_supported:
  "ax = ''x'' \<or> ax = ''z'' \<Longrightarrow> axis s = ax \<Longrightarrow>
   set_origin K (Some v) s =
     (Inr (), s\<lparr>origin_point := \<lparr>p_axis = ax, p_pos = v, p_voltage = volts_of_pos K ax v\<rparr>\<rparr>)"
  by (simp add: set_origin_def Point_pos_supported)

lemma GalvoDriver_init_supported:
  assumes ok: "ax = ''x'' \<or> ax = ''z''"
  shows "GalvoDriver_init K ax dac p lj b =
     (case go_to K p 0
        \<lparr>axis = ax, dac_name = dac, open_labjack = lj,
         point = \<lparr>p_axis = ax, p_pos = p, p_voltage = volts_of_pos K ax p\<rparr>,
         point_history = [\<lparr>p_axis = ax, p_pos = p, p_voltage = volts_of_pos K ax p\<rparr>],
         origin_point = \<lparr>p_axis = ax, p_pos = p, p_voltage = volts_of_pos K ax p\<rparr>,
         voltage = None\<rparr> b of
        (Inl e, s2, b1) \<Rightarrow> (Inl e, b1)
      | (Inr _, s2, b1) \<Rightarrow> (Inr s2, b1))"
proof -
  have a: "ax \<in> set [''x'', ''z'']" using ok by auto
  show ?thesis
    unfolding GalvoDriver_init_def
    by (simp only: a not_True_eq_False if_False Point_pos_supported[OF ok] sum.case
          set_origin_Some_supported[OF ok] GalvoDriver.select_convs GalvoDriver.update_convs
          prod.case)
qed


lemma GalvoDriver_init_fields:
  assumes "GalvoDriver_init K ax dac p lj b = (Inr s, b')"
  shows "axis s = ax \<and> (ax = ''x'' \<or> ax = ''z'') \<and> dac_name s = dac \<and> open_labjack s = lj"
proof -
  have ok: "ax = ''x'' \<or> ax = ''z''" using GalvoDriver_init_axis_supported[OF assms] .
  define s1 where "s1 = \<lparr>axis = ax, dac_name = dac, open_labjack = lj,
      point = \<lparr>p_axis = ax, p_pos = p, p_voltage = volts_of_pos K ax p\<rparr>,
      point_history = [\<lparr>p_axis = ax, p_pos = p, p_voltage = volts_of_pos K ax p\<rparr>],
      origin_point = \<lparr>p_axis = ax, p_pos = p, p_voltage = volts_of_pos K ax p\<rparr>,
      voltage = None\<rparr>"
  obtain r s2 b2 where g: "go_to K p 0 s1 b = (r, s2, b2)"
    by (cases "go_to K p 0 s1 b") blast
  from assms have "s2 = s"
    unfolding GalvoDriver_init_supported[OF ok] s1_def[symmetric] g
    by (cases r) simp_all
  with go_to_frame[OF g] ok show ?thesis
    by (simp add: same_frame_def s1_def)
qed


lemma reachable_axis: "reachable K s \<Longrightarrow> axis s = ''x'' \<or> axis s = ''z''"
proof (induction rule: reachable.induct)
  case (constructed ax dac p lj b s b')
  from GalvoDriver_init_fields[OF constructed.hyps] show ?case by simp
next
  case (after_set_origin s orig r s')
  from set_origin_axis[OF after_set_origin.hyps(2)] after_set_origin.IH show ?case by simp
next
  case (after_go_to s new_pos speed b r s' b')
  from go_to_frame[OF after_go_to.hyps(2)] after_go_to.IH show ?case by (simp add: same_frame_def)
next
  case (after_voltage s v)
  then show ?case by simp
qed











subsection \<open>Exceptions of a move\<close>

lemma go_to_try_error:
  "go_to_try lj m sp b = (Some e, aV, t, b1) \<Longrightarrow> e \<noteq> ValueError"
  unfolding go_to_try_def
  by (auto split: if_splits sum.splits prod.splits simp: raised_not_ValueError)

lemma go_to_finally_error:
  "axis s = ''x'' \<or> axis s = ''z'' \<Longrightarrow> go_to_finally K s aV = Inl e \<Longrightarrow> e \<noteq> ValueError"
  unfolding go_to_finally_def
  by (auto split: option.splits simp: Point_voltage_supported)

lemma go_to_except_error:
  "axis s = ''x'' \<or> axis s = ''z'' \<Longrightarrow> go_to_except K lj aV s b = (e, aV', s', b') \<Longrightarrow>
     e \<noteq> ValueError"
  unfolding go_to_except_def voltage_set_def
  by (auto split: option.splits sum.splits prod.splits
      simp: Point_voltage_supported raised_not_ValueError)

lemma pos_set_supported:
  "axis s = ''x'' \<or> axis s = ''z'' \<Longrightarrow>
     pos_set K v s =
       (Inr (), s\<lparr>point_history := point_history s @ [point s],
                  point := \<lparr>p_axis = axis s, p_pos = v, p_voltage = volts_of_pos K (axis s) v\<rparr>\<rparr>)"
  by (simp add: pos_set_def point_set_def Point_pos_supported)

lemma go_to_labjack_error:
  assumes ok: "axis s = ''x'' \<or> axis s = ''z''"
    and g: "go_to_labjack K lj move new_pos speed s b = (Inl e, s', b')"
  shows "e \<noteq> ValueError"
proof -
  obtain ex aV t b1 where tr: "go_to_try lj move speed b = (ex, aV, t, b1)"
    by (cases "go_to_try lj move speed b") auto
  show ?thesis
  proof (cases ex)
    case None
    have ok': "axis (s\<lparr>point_history := point_history s @ [point s],
                  point := \<lparr>p_axis = axis s, p_pos = new_pos, p_voltage = volts_of_pos K (axis s) new_pos\<rparr>\<rparr>) = ''x'' \<or>
        axis (s\<lparr>point_history := point_history s @ [point s],
                  point := \<lparr>p_axis = axis s, p_pos = new_pos, p_voltage = volts_of_pos K (axis s) new_pos\<rparr>\<rparr>) = ''z''"
      using ok by simp
    from g show ?thesis
      unfolding go_to_labjack_def tr None pos_set_supported[OF ok]
      using go_to_finally_error[OF ok']
      by (auto split: sum.splits option.splits)
  next
    case (Some e0)
    note e0 = go_to_try_error[OF tr[unfolded Some]]
    show ?thesis
    proof (cases "e0 = KeyboardInterrupt")
      case True
      obtain e1 aV1 s1 b2 where ex: "go_to_except K lj aV s b1 = (e1, aV1, s1, b2)"
        by (cases "go_to_except K lj aV s b1") auto
      have ok1: "axis s1 = ''x'' \<or> axis s1 = ''z''"
        using go_to_except_frame[OF ex] ok by (simp add: same_frame_def)
      from g show ?thesis
        unfolding go_to_labjack_def tr Some
        using True go_to_finally_error[OF ok1] go_to_except_error[OF ok ex]
        by (auto simp: ex split: sum.splits)
    next
      case False
      from g show ?thesis
        unfolding go_to_labjack_def tr Some
        using False e0 go_to_finally_error[OF ok]
        by (auto split: sum.splits)
    qed
  qed
qed

lemma Move_init_error: "Move_init K ax p0 p1 sp = Inl e \<Longrightarrow> e = InvalidSpeed \<and> sp < 0"
  by (auto simp: Move_init_def Let_def split: if_splits)

lemma go_to_error:
  assumes ok: "axis s = ''x'' \<or> axis s = ''z''"
    and g: "go_to K new_pos speed s b = (Inl e, s', b')"
  shows "e \<noteq> ValueError"
proof (cases "Move_init K (axis s) (pos s) (new_pos + origin s) speed")
  case (Inl e0)
  with g Move_init_error[OF Inl] show ?thesis
    by (simp add: go_to_def Let_def)
next
  case (Inr move)
  show ?thesis
  proof (cases "open_labjack s")
    case None
    from g show ?thesis
      unfolding go_to_def Let_def Inr None pos_set_supported[OF ok]
      using ok by (simp add: Point_pos_supported)
  next
    case (Some lj)
    from g have "go_to_labjack K lj move (new_pos + origin s) speed s b = (Inl e, s', b')"
      unfolding go_to_def Let_def Inr Some by simp
    from go_to_labjack_error[OF ok this] show ?thesis .
  qed
qed

subsection \<open>Evaluation on the concrete configuration\<close>

lemmas driver_defs = GalvoDriver_init_def Point_pos_def Point_voltage_def set_origin_def go_to_def
  Move_init_def pos_set_def point_set_def pos_def origin_def go_to_labjack_def go_to_try_def
  go_to_except_def go_to_finally_def voltage_set_def rel_pos_def rel_point_def Point_sub_def


subsection \<open>Completed moves\<close>

lemma pos_set_Inr:
  "pos_set K v s = (Inr u, s') \<Longrightarrow> Point_pos K (axis s) v = Inr (point s') \<and>
     point_history s' = point_history s @ [point s]"
  by (auto simp: pos_set_def point_set_def split: sum.splits)

lemma go_to_labjack_Inr:
  assumes "go_to_labjack K lj move new_pos speed s b = (Inr r, s', b')"
  shows "Point_pos K (axis s) new_pos = Inr (point s') \<and>
     point_history s' = point_history s @ [point s]"
proof -
  obtain ex aV t b1 where tr: "go_to_try lj move speed b = (ex, aV, t, b1)"
    by (cases "go_to_try lj move speed b") auto
  obtain u s1 where ps: "pos_set K new_pos s = (u, s1)"
    by (cases "pos_set K new_pos s") auto
  from assms have "ex = None \<and> (\<exists>w. u = Inr w) \<and> s1 = s'"
    unfolding go_to_labjack_def tr
    by (auto simp: ps split: option.splits sum.splits prod.splits if_splits)
  with pos_set_Inr ps show ?thesis by auto
qed

lemma GalvoDriver_init_no_device:
  "GalvoDriver_init K ''x'' dac p None b =
     (Inr \<lparr>axis = ''x'', dac_name = dac, open_labjack = None,
           point = \<lparr>p_axis = ''x'', p_pos = p + p, p_voltage = volts_of_pos K ''x'' (p + p)\<rparr>,
           point_history = [\<lparr>p_axis = ''x'', p_pos = p, p_voltage = volts_of_pos K ''x'' p\<rparr>,
                            \<lparr>p_axis = ''x'', p_pos = p, p_voltage = volts_of_pos K ''x'' p\<rparr>],
           origin_point = \<lparr>p_axis = ''x'', p_pos = p, p_voltage = volts_of_pos K ''x'' p\<rparr>,
           voltage = None\<rparr>, b)"
  by (simp add: driver_defs Let_def)

lemma stream_move0:
  "Move_init K0 ''x'' 0 100 10 = Inr \<lparr>move_t = 10, move_bits = [0, 100]\<rparr>"
  by (simp add: Move_init_def K0_def Let_def)

lemma driver0_lj_constructed:
  "GalvoDriver_init K0 ''x'' ''DAC0'' 0 (Some (lj0 f)) [] =
     (Inr (driver0 ''x'' ''DAC0'' (Some (lj0 f))), [''update''])"
  by (simp add: driver_defs K0_def driver0_def P0_def lj0_def rb0_def)

subsection \<open>The group and its drivers\<close>

lemmas group_defs = GalvoDrivers_init_def g_go_to_def g_pos_def MoveMultiDim_init_def
  g_go_to_labjack_def g_go_to_try_def g_go_to_except_def

lemma group0_constructed:
  "GalvoDrivers_init K0 [''x'', ''z''] [''x'' \<mapsto> ''DAC0'', ''z'' \<mapsto> ''DAC1'']
     [''x'' \<mapsto> 0, ''z'' \<mapsto> 0] None [] = (Inr (group0 None), [])"
  by (simp add: group_defs driver_defs K0_def driver0_def P0_def group0_def)

lemma group0_lj_constructed:
  "GalvoDrivers_init K0 [''x'', ''z''] [''x'' \<mapsto> ''DAC0'', ''z'' \<mapsto> ''DAC1'']
     [''x'' \<mapsto> 0, ''z'' \<mapsto> 0] (Some (lj0 f)) [] = (Inr (group0 (Some (lj0 f))), [''update''])"
  by (simp add: group_defs driver_defs K0_def driver0_def P0_def group0_def lj0_def rb0_def)

lemma Move_init_ok: "0 \<le> sp \<Longrightarrow> \<exists>m. Move_init K ax p0 p1 sp = Inr m"
  by (simp add: Move_init_def Let_def)

lemma go_to_no_device:
  assumes "open_labjack c = None" and ok: "axis c = ''x'' \<or> axis c = ''z''" and "0 \<le> sp"
  shows "go_to K p sp c b =
     (Inr (p + origin c, 0),
      c\<lparr>point_history := point_history c @ [point c],
        point := \<lparr>p_axis = axis c, p_pos = p + origin c,
                  p_voltage = volts_of_pos K (axis c) (p + origin c)\<rparr>\<rparr>, b)"
proof -
  obtain m where m: "Move_init K (axis c) (p_pos (point c)) (p + origin c) sp = Inr m"
    using Move_init_ok[OF assms(3)] by blast
  show ?thesis
    using assms(1) ok
    by (simp add: go_to_def Let_def m pos_set_supported[OF ok] Point_pos_supported pos_def)
qed

lemma go_to_device_untouched:
  assumes "open_labjack c = None" and "go_to K p sp c b = (r, c', b')"
  shows "b' = b"
  using assms unfolding go_to_def Let_def
  by (auto split: sum.splits prod.splits)

lemma children_ok_upd:
  "children_ok gs \<Longrightarrow> axis c = ax \<Longrightarrow> ax = ''x'' \<or> ax = ''z'' \<Longrightarrow> open_labjack c = None \<Longrightarrow>
     children_ok (gs(ax \<mapsto> c))"
  by (simp add: children_ok_def)

lemma children_okD:
  "children_ok gs \<Longrightarrow> gs ax = Some c \<Longrightarrow>
     axis c = ax \<and> (ax = ''x'' \<or> ax = ''z'') \<and> open_labjack c = None"
  by (simp add: children_ok_def)

lemma children_dac_upd:
  "children_dac dac gs \<Longrightarrow> dac ax = Some (dac_name c) \<Longrightarrow> children_dac dac (gs(ax \<mapsto> c))"
  by (simp add: children_dac_def)

lemma children_dacD: "children_dac dac gs \<Longrightarrow> gs ax = Some c \<Longrightarrow> dac ax = Some (dac_name c)"
  by (simp add: children_dac_def)

lemma make_galvos_ok:
  "children_ok gs \<Longrightarrow> children_dac dac gs \<Longrightarrow>
   make_galvos K axes dac pos_init gs b = (Inr gs', b') \<Longrightarrow>
     children_ok gs' \<and> children_dac dac gs' \<and> set axes \<union> dom gs \<subseteq> dom gs'"
proof (induction axes arbitrary: gs b)
  case Nil
  then show ?case by auto
next
  case (Cons ax axs)
  from Cons.prems(3) obtain d p c b1 where
    d: "dac ax = Some d" and p: "pos_init ax = Some p" and
    c: "GalvoDriver_init K ax d p None b = (Inr c, b1)" and
    rest: "make_galvos K axs dac pos_init (gs(ax \<mapsto> c)) b1 = (Inr gs', b')"
    by (auto split: option.splits sum.splits prod.splits)
  note f = GalvoDriver_init_fields[OF c]
  have 1: "children_ok (gs(ax \<mapsto> c))"
    using Cons.prems(1) f by (intro children_ok_upd) simp_all
  have 2: "children_dac dac (gs(ax \<mapsto> c))"
    using Cons.prems(2) f d by (intro children_dac_upd) simp_all
  note ih = Cons.IH[OF 1 2 rest]
  have "dom (gs(ax \<mapsto> c)) = insert ax (dom gs)" by simp
  with ih have "set axs \<union> insert ax (dom gs) \<subseteq> dom gs'" by (simp only:)
  then have "set (ax # axs) \<union> dom gs \<subseteq> dom gs'" by auto
  with ih show ?case by blast
qed

lemma children_frame:
  assumes "children_ok gs" "children_dac dac gs" "gs ax = Some c"
    and "axis c1 = axis c" "dac_name c1 = dac_name c" "open_labjack c1 = open_labjack c"
  shows "children_ok (gs(ax \<mapsto> c1)) \<and> children_dac dac (gs(ax \<mapsto> c1)) \<and>
         dom (gs(ax \<mapsto> c1)) = dom gs"
proof -
  note c = children_okD[OF assms(1,3)] children_dacD[OF assms(2,3)]
  have "children_ok (gs(ax \<mapsto> c1))"
    using assms(1) c assms(4-6) by (intro children_ok_upd) simp_all
  moreover have "children_dac dac (gs(ax \<mapsto> c1))"
    using assms(2) c assms(4-6) by (intro children_dac_upd) simp_all
  moreover have "dom (gs(ax \<mapsto> c1)) = dom gs"
    using assms(3) by auto
  ultimately show ?thesis by simp
qed

lemma go_to_children_ok:
  "children_ok gs \<Longrightarrow> children_dac dac gs \<Longrightarrow>
   go_to_children K axs new_pos sp gs acc b = (r, gs', b') \<Longrightarrow>
     children_ok gs' \<and> children_dac dac gs' \<and> dom gs' = dom gs \<and> b' = b"
proof (induction axs arbitrary: gs acc b)
  case Nil
  then show ?case by simp
next
  case (Cons ax axs)
  show ?case
  proof (cases "gs ax")
    case None
    with Cons.prems show ?thesis by simp
  next
    case (Some c)
    show ?thesis
    proof (cases "new_pos ax")
      case None
      with Cons.prems Some show ?thesis by simp
    next
      case p: (Some p)
      obtain r1 c1 b1 where g: "go_to K p sp c b = (r1, c1, b1)"
        by (cases "go_to K p sp c b") auto
      have nd: "open_labjack c = None" using children_okD[OF Cons.prems(1) Some] by simp
      have b1: "b1 = b" using go_to_device_untouched[OF nd g] .
      have fr: "axis c1 = axis c" "dac_name c1 = dac_name c" "open_labjack c1 = open_labjack c"
        using go_to_frame[OF g] by (simp_all add: same_frame_def)
      note st = children_frame[OF Cons.prems(1,2) Some fr]
      show ?thesis
      proof (cases r1)
        case (Inl e)
        with Cons.prems(3) Some p g st b1 show ?thesis by auto
      next
        case (Inr v)
        obtain actual t where v: "v = (actual, t)" by (cases v) auto
        from Cons.prems(3) have rest:
          "go_to_children K axs new_pos sp (gs(ax \<mapsto> c1)) (acc(ax \<mapsto> actual)) b1 = (r, gs', b')"
          by (simp add: Some p g Inr v)
        from st have 1: "children_ok (gs(ax \<mapsto> c1))" and 2: "children_dac dac (gs(ax \<mapsto> c1))"
          and 3: "dom (gs(ax \<mapsto> c1)) = dom gs" by simp_all
        from Cons.IH[OF 1 2 rest] 3 b1 show ?thesis by (simp only:) 
      qed
    qed
  qed
qed

lemma set_stopped_ok:
  "children_ok gs \<Longrightarrow> children_dac dac gs \<Longrightarrow> set_stopped axs rb gs = (r, gs') \<Longrightarrow>
     children_ok gs' \<and> children_dac dac gs' \<and> dom gs' = dom gs"
proof (induction axs arbitrary: gs)
  case Nil
  then show ?case by simp
next
  case (Cons ax axs)
  show ?case
  proof (cases "gs ax")
    case None
    with Cons.prems show ?thesis by simp
  next
    case (Some c)
    show ?thesis
    proof (cases "rb (dac_name c)")
      case None
      with Cons.prems Some show ?thesis by simp
    next
      case v: (Some v)
      have fr: "axis (c\<lparr>voltage := Some v\<rparr>) = axis c"
        "dac_name (c\<lparr>voltage := Some v\<rparr>) = dac_name c"
        "open_labjack (c\<lparr>voltage := Some v\<rparr>) = open_labjack c" by simp_all
      note st = children_frame[OF Cons.prems(1,2) Some fr]
      from Cons.prems(3) have rest:
        "set_stopped axs rb (gs(ax \<mapsto> c\<lparr>voltage := Some v\<rparr>)) = (r, gs')"
        by (simp add: Some v)
      from st have 1: "children_ok (gs(ax \<mapsto> c\<lparr>voltage := Some v\<rparr>))"
        and 2: "children_dac dac (gs(ax \<mapsto> c\<lparr>voltage := Some v\<rparr>))"
        and 3: "dom (gs(ax \<mapsto> c\<lparr>voltage := Some v\<rparr>)) = dom gs" by simp_all
      from Cons.IH[OF 1 2 rest] 3 show ?thesis by (simp only:)
    qed
  qed
qed

lemma g_go_to_except_ok:
  assumes "children_ok gs" "children_dac dac gs"
    and "g_go_to_except lj axes aV gs b = (e, aV1, gs1, b2)"
  shows "children_ok gs1 \<and> children_dac dac gs1 \<and> dom gs1 = dom gs"
proof -
  obtain rr bb where rd: "(case aV of Some rb \<Rightarrow> (Inr rb, b) | None \<Rightarrow> updater_read lj b) = (rr, bb)"
    by (cases "(case aV of Some rb \<Rightarrow> (Inr rb, b) | None \<Rightarrow> updater_read lj b)") auto
  show ?thesis
  proof (cases rr)
    case (Inl x)
    with assms rd show ?thesis by (simp add: g_go_to_except_def)
  next
    case (Inr rb)
    obtain r gs2 where st: "set_stopped axes rb gs = (r, gs2)"
      by (cases "set_stopped axes rb gs") auto
    from assms(3) have "gs1 = gs2"
      by (cases r) (simp_all add: g_go_to_except_def rd Inr st)
    with set_stopped_ok[OF assms(1,2) st] show ?thesis by simp
  qed
qed

lemma g_go_to_labjack_ok:
  assumes "children_ok (galvos g)" "children_dac dac (galvos g)"
    and "g_go_to_labjack K lj mv sp g b = (r, g', b')"
  shows "children_ok (galvos g') \<and> children_dac dac (galvos g') \<and>
         dom (galvos g') = dom (galvos g) \<and> g_axis g' = g_axis g \<and>
         g_dac_name g' = g_dac_name g \<and> g_open_labjack g' = g_open_labjack g"
proof -
  obtain ex aV t b1 where tr: "g_go_to_try lj mv sp b = (ex, aV, t, b1)"
    by (cases "g_go_to_try lj mv sp b") auto
  obtain e1 aV1 gs1 b2 where ex: "g_go_to_except lj (g_axis g) aV (galvos g) b1 = (e1, aV1, gs1, b2)"
    by (cases "g_go_to_except lj (g_axis g) aV (galvos g) b1") auto
  note ok1 = g_go_to_except_ok[OF assms(1,2) ex]
  from assms(3) have "g' = g \<or> g' = g\<lparr>galvos := gs1\<rparr>"
    unfolding g_go_to_labjack_def tr
    by (auto simp: ex split: option.splits sum.splits if_splits)
  then show ?thesis
  proof
    assume "g' = g"
    with assms(1,2) show ?thesis by simp
  next
    assume "g' = g\<lparr>galvos := gs1\<rparr>"
    with ok1 show ?thesis by simp
  qed
qed

lemma g_go_to_ok:
  assumes "children_ok (galvos g)" "children_dac dac (galvos g)"
    and "g_go_to K sp new_pos g b = (r, g', b')"
  shows "children_ok (galvos g') \<and> children_dac dac (galvos g') \<and>
         dom (galvos g') = dom (galvos g) \<and> g_axis g' = g_axis g \<and>
         g_dac_name g' = g_dac_name g \<and> g_open_labjack g' = g_open_labjack g"
proof (cases "g_pos g")
  case (Inl e)
  with assms show ?thesis by (simp add: g_go_to_def)
next
  case (Inr original_pos)
  obtain r1 gs b1 where ch:
    "go_to_children K (g_axis g) new_pos sp (galvos g) Map.empty b = (r1, gs, b1)"
    by (cases "go_to_children K (g_axis g) new_pos sp (galvos g) Map.empty b") auto
  note ok1 = go_to_children_ok[OF assms(1,2) ch]
  have base: "children_ok (galvos (g\<lparr>galvos := gs\<rparr>))" "children_dac dac (galvos (g\<lparr>galvos := gs\<rparr>))"
    using ok1 by simp_all
  show ?thesis
  proof (cases r1)
    case (Inl e)
    with assms(3) have "g' = g\<lparr>galvos := gs\<rparr>" by (simp add: g_go_to_def Inr ch)
    with ok1 show ?thesis by simp
  next
    case new: (Inr new_abs_pos)
    show ?thesis
    proof (cases "MoveMultiDim_init K (g_axis g) original_pos new_abs_pos sp")
      case (Inl e)
      with assms(3) have "g' = g\<lparr>galvos := gs\<rparr>" by (simp add: g_go_to_def Inr ch new)
      with ok1 show ?thesis by simp
    next
      case mv: (Inr move)
      show ?thesis
      proof (cases "g_open_labjack g")
        case None
        with assms(3) have "g' = g\<lparr>galvos := gs\<rparr>"
          by (auto simp: g_go_to_def Inr ch new mv split: sum.splits)
        with ok1 show ?thesis by simp
      next
        case (Some lj)
        from assms(3) have "g_go_to_labjack K lj move sp (g\<lparr>galvos := gs\<rparr>) b1 = (r, g', b')"
          by (simp add: g_go_to_def Inr ch new mv Some)
        from g_go_to_labjack_ok[OF base this] ok1 show ?thesis by simp
      qed
    qed
  qed
qed

lemma GalvoDrivers_init_ok:
  assumes "GalvoDrivers_init K axes dac pos_init lj b = (Inr g, b')"
  shows "children_ok (galvos g) \<and> children_dac dac (galvos g) \<and> set axes \<subseteq> dom (galvos g) \<and>
         g_axis g = axes \<and> g_dac_name g = dac \<and> g_open_labjack g = lj"
proof -
  from assms obtain gs b1 where mk: "make_galvos K axes dac pos_init Map.empty b = (Inr gs, b1)"
    by (auto simp: GalvoDrivers_init_def split: option.splits sum.splits prod.splits)
  have e1: "children_ok (Map.empty :: string \<rightharpoonup> 'a GalvoDriver)" by (simp add: children_ok_def)
  have e2: "children_dac dac (Map.empty :: string \<rightharpoonup> 'a GalvoDriver)" by (simp add: children_dac_def)
  note m = make_galvos_ok[OF e1 e2 mk]
  define g0 where "g0 = \<lparr>g_axis = axes, g_dac_name = dac, g_open_labjack = lj, galvos = gs\<rparr>"
  from assms mk obtain r where go: "g_go_to K 0 pos_init g0 b1 = (Inr r, g, b')"
    by (auto simp: GalvoDrivers_init_def g0_def split: option.splits sum.splits prod.splits if_splits)
  have b: "children_ok (galvos g0)" "children_dac dac (galvos g0)" using m by (simp_all add: g0_def)
  from g_go_to_ok[OF b go] m show ?thesis by (simp add: g0_def)
qed

lemma GalvoDrivers_init_group_ok:
  assumes "GalvoDrivers_init K axes dac pos_init lj b = (Inr g, b')"
  shows "group_ok g"
  unfolding group_ok_def
proof
  fix ax assume "ax \<in> set (g_axis g)"
  note ok = GalvoDrivers_init_ok[OF assms]
  with \<open>ax \<in> set (g_axis g)\<close> obtain c where c: "galvos g ax = Some c" by auto
  from ok have "children_ok (galvos g)" by simp
  from children_okD[OF this c] c
  show "\<exists>c. galvos g ax = Some c \<and> axis c = ax \<and> ax \<in> set [''x'', ''z'']" by simp
qed

lemma g_set_origin_loop_result:
  assumes "orig \<noteq> []"
    and "\<forall>ax \<in> set axs. \<exists>c. gs ax = Some c \<and> axis c = ax \<and> (ax = ''x'' \<or> ax = ''z'')"
  shows "g_set_origin_loop K axs orig gs =
     (Inr (),
      (\<lambda>ax. if ax \<in> set axs then
               (case map_of orig ax of
                  None \<Rightarrow> gs ax
                | Some v \<Rightarrow>
                    map_option
                      (\<lambda>c. c\<lparr>origin_point :=
                               \<lparr>p_axis = ax, p_pos = v, p_voltage = volts_of_pos K ax v\<rparr>\<rparr>)
                      (gs ax))
             else gs ax))"
  using assms(2)
proof (induction axs arbitrary: gs)
  case Nil
  then show ?case by simp
next
  case (Cons a axs)
  from Cons.prems obtain c where c: "gs a = Some c" "axis c = a" "a = ''x'' \<or> a = ''z''"
    by auto
  have ne: "orig \<noteq> []" by (rule assms(1))
  show ?case
  proof (cases "map_of orig a")
    case None
    have pre: "\<forall>ax \<in> set axs. \<exists>c. gs ax = Some c \<and> axis c = ax \<and> (ax = ''x'' \<or> ax = ''z'')"
      using Cons.prems by simp
    have step: "g_set_origin_loop K (a # axs) orig gs = g_set_origin_loop K axs orig gs"
      using ne c None by simp
    show ?thesis
      unfolding step Cons.IH[of gs, OF pre]
      using None by (auto simp: fun_eq_iff)
  next
    case (Some v)
    define c1 where "c1 = c\<lparr>origin_point := \<lparr>p_axis = a, p_pos = v, p_voltage = volts_of_pos K a v\<rparr>\<rparr>"
    have so: "set_origin K (Some v) c = (Inr (), c1)"
      unfolding c1_def using set_origin_Some_supported[OF c(3) c(2)] .
    have pre: "\<forall>ax \<in> set axs. \<exists>c. (gs(a \<mapsto> c1)) ax = Some c \<and> axis c = ax \<and> (ax = ''x'' \<or> ax = ''z'')"
      using Cons.prems c by (simp add: c1_def)
    have step: "g_set_origin_loop K (a # axs) orig gs = g_set_origin_loop K axs orig (gs(a \<mapsto> c1))"
      using ne c Some so by simp
    have idem: "c1\<lparr>origin_point := \<lparr>p_axis = a, p_pos = v, p_voltage = volts_of_pos K a v\<rparr>\<rparr> = c1"
      by (simp add: c1_def)
    have fold: "c\<lparr>origin_point := \<lparr>p_axis = a, p_pos = v, p_voltage = volts_of_pos K a v\<rparr>\<rparr> = c1"
      by (simp add: c1_def)
    have pt: "(if x \<in> set axs then
                 (case map_of orig x of
                    None \<Rightarrow> (gs(a \<mapsto> c1)) x
                  | Some w \<Rightarrow>
                      map_option
                        (\<lambda>c. c\<lparr>origin_point :=
                                 \<lparr>p_axis = x, p_pos = w, p_voltage = volts_of_pos K x w\<rparr>\<rparr>)
                        ((gs(a \<mapsto> c1)) x))
               else (gs(a \<mapsto> c1)) x) =
              (if x \<in> set (a # axs) then
                 (case map_of orig x of
                    None \<Rightarrow> gs x
                  | Some w \<Rightarrow>
                      map_option
                        (\<lambda>c. c\<lparr>origin_point :=
                                 \<lparr>p_axis = x, p_pos = w, p_voltage = volts_of_pos K x w\<rparr>\<rparr>)
                        (gs x))
               else gs x)" for x
    proof (cases "x = a")
      case True
      then show ?thesis using Some c(1) by (simp add: idem fold)
    next
      case False
      then show ?thesis by (simp split: option.splits)
    qed
    show ?thesis
      unfolding step Cons.IH[of "gs(a \<mapsto> c1)", OF pre]
      by (simp only: pt)
  qed
qed

lemma group_ok_children:
  assumes "group_ok g"
  shows "\<forall>ax \<in> set (g_axis g). \<exists>c. galvos g ax = Some c \<and> axis c = ax \<and> (ax = ''x'' \<or> ax = ''z'')"
  using assms unfolding group_ok_def by simp

lemma g_set_origin_result:
  assumes "group_ok g" and "orig \<noteq> []"
  shows "g_set_origin K orig g = (Inr (), g\<lparr>galvos := (\<lambda>ax. if ax \<in> set (g_axis g) then
               (case map_of orig ax of
                  None \<Rightarrow> galvos g ax
                | Some v \<Rightarrow>
                    map_option
                      (\<lambda>c. c\<lparr>origin_point :=
                               \<lparr>p_axis = ax, p_pos = v, p_voltage = volts_of_pos K ax v\<rparr>\<rparr>)
                      (galvos g ax))
             else galvos g ax)\<rparr>)"
  unfolding g_set_origin_def g_set_origin_loop_result[OF assms(2) group_ok_children[OF assms(1)]]
  by (simp only: prod.case)

lemma group0_ok: "group_ok (group0 None)"
  by (rule GalvoDrivers_init_group_ok[OF group0_constructed])

subsection \<open>The constructor of the group\<close>

lemma check_config_complete:
  "\<forall>ax \<in> set axes. dac ax \<noteq> None \<and> pos_init ax \<noteq> None \<Longrightarrow> check_config axes dac pos_init = None"
  by (induction axes) auto

lemma GalvoDriver_init_no_device_ok:
  assumes ok: "ax = ''x'' \<or> ax = ''z''"
  shows "\<exists>c. GalvoDriver_init K ax d p None b = (Inr c, b)"
proof -
  define s1 :: "'a GalvoDriver" where "s1 = \<lparr>axis = ax, dac_name = d, open_labjack = None,
      point = \<lparr>p_axis = ax, p_pos = p, p_voltage = volts_of_pos K ax p\<rparr>,
      point_history = [\<lparr>p_axis = ax, p_pos = p, p_voltage = volts_of_pos K ax p\<rparr>],
      origin_point = \<lparr>p_axis = ax, p_pos = p, p_voltage = volts_of_pos K ax p\<rparr>,
      voltage = None\<rparr>"
  have nd: "open_labjack s1 = None" by (simp add: s1_def)
  have ok1: "axis s1 = ''x'' \<or> axis s1 = ''z''" using ok by (simp add: s1_def)
  have z: "(0::real) \<le> 0" by simp
  note g = go_to_no_device[OF nd ok1 z, of K p b]
  show ?thesis
    unfolding GalvoDriver_init_supported[OF ok] s1_def[symmetric] g by simp
qed

lemma make_galvos_success:
  "\<forall>ax \<in> set axes. (\<exists>d. dac ax = Some d) \<and> (\<exists>p. pos_init ax = Some p) \<and> (ax = ''x'' \<or> ax = ''z'') \<Longrightarrow>
   \<exists>gs'. make_galvos K axes dac pos_init gs b = (Inr gs', b)"
proof (induction axes arbitrary: gs)
  case Nil
  then show ?case by simp
next
  case (Cons a axs)
  have a: "a \<in> set (a # axs)" by simp
  from bspec[OF Cons.prems a] obtain d p where d: "dac a = Some d" and p: "pos_init a = Some p"
    and ok: "a = ''x'' \<or> a = ''z''" by (elim exE conjE)
  from GalvoDriver_init_no_device_ok[OF ok, of K d p b] obtain c where
    c: "GalvoDriver_init K a d p None b = (Inr c, b)" by (elim exE)
  have rest: "\<forall>ax \<in> set axs. (\<exists>d. dac ax = Some d) \<and> (\<exists>p. pos_init ax = Some p) \<and> (ax = ''x'' \<or> ax = ''z'')"
    using Cons.prems by simp
  from Cons.IH[OF rest, of "gs(a \<mapsto> c)"] obtain gs' where
    r: "make_galvos K axs dac pos_init (gs(a \<mapsto> c)) b = (Inr gs', b)" by (elim exE)
  show ?case by (simp add: d p c r)
qed

lemma collect_success:
  "set axes \<subseteq> dom gs \<Longrightarrow> \<exists>m. collect f axes gs acc = Inr m \<and> set axes \<subseteq> dom m \<and> dom acc \<subseteq> dom m"
proof (induction axes arbitrary: acc)
  case Nil
  then show ?case by simp
next
  case (Cons a axs)
  from Cons.prems obtain c where c: "gs a = Some c" by auto
  from Cons.prems have "set axs \<subseteq> dom gs" by simp
  from Cons.IH[OF this, of "acc(a \<mapsto> f c)"] obtain m where
    m: "collect f axs gs (acc(a \<mapsto> f c)) = Inr m" "set axs \<subseteq> dom m" "dom (acc(a \<mapsto> f c)) \<subseteq> dom m"
    by (elim exE conjE)
  from m(3) have "a \<in> dom m" "dom acc \<subseteq> dom m" by auto
  with m(1,2) c show ?case by simp
qed

lemma Move_init_bits: "Move_init K ax p0 p1 sp = Inr m \<Longrightarrow> move_bits m \<noteq> []"
  by (auto simp: Move_init_def Let_def split: if_splits)

lemma axis_moves_success:
  "set axes \<subseteq> dom p0 \<Longrightarrow> set axes \<subseteq> dom p1 \<Longrightarrow> 0 \<le> sp \<Longrightarrow>
   \<exists>ms. axis_moves K axes p0 p1 sp = Inr ms \<and> (\<forall>m \<in> set ms. move_bits m \<noteq> [])"
proof (induction axes)
  case Nil
  then show ?case by simp
next
  case (Cons a axs)
  from Cons.prems obtain x0 x1 where x: "p0 a = Some x0" "p1 a = Some x1" by auto
  from Move_init_ok[OF Cons.prems(3), of K a x0 x1] obtain m where
    m: "Move_init K a x0 x1 sp = Inr m" by (elim exE)
  from Cons.prems have "set axs \<subseteq> dom p0" "set axs \<subseteq> dom p1" by simp_all
  from Cons.IH[OF this Cons.prems(3)] obtain ms where
    ms: "axis_moves K axs p0 p1 sp = Inr ms" "\<forall>m \<in> set ms. move_bits m \<noteq> []"
    by (elim exE conjE)
  from Move_init_bits[OF m] ms x m show ?case by simp
qed

lemma MoveMultiDim_init_success:
  assumes "set axes \<subseteq> dom p0" "set axes \<subseteq> dom p1" "0 \<le> sp"
  shows "\<exists>mv. MoveMultiDim_init K axes p0 p1 sp = Inr mv \<and> [] \<notin> set (multi_bits mv)"
proof -
  from axis_moves_success[OF assms, of K] obtain ms where
    ms: "axis_moves K axes p0 p1 sp = Inr ms" "\<forall>m \<in> set ms. move_bits m \<noteq> []"
    by (elim exE conjE)
  show ?thesis
    using ms(2) by (auto simp: MoveMultiDim_init_def ms(1) Let_def)
qed

lemma go_to_children_success:
  "children_ok gs \<Longrightarrow> set axs \<subseteq> dom gs \<Longrightarrow> set axs \<subseteq> dom new_pos \<Longrightarrow> 0 \<le> sp \<Longrightarrow>
   \<exists>acc' gs'. go_to_children K axs new_pos sp gs acc b = (Inr acc', gs', b) \<and>
      set axs \<subseteq> dom acc' \<and> dom acc \<subseteq> dom acc'"
proof (induction axs arbitrary: gs acc)
  case Nil
  then show ?case by simp
next
  case (Cons a axs)
  from Cons.prems(2) obtain c where c: "gs a = Some c" by auto
  from Cons.prems(3) obtain p where p: "new_pos a = Some p" by auto
  note k = children_okD[OF Cons.prems(1) c]
  from k have nd: "open_labjack c = None" and ax: "axis c = a" and ok: "a = ''x'' \<or> a = ''z''"
    by simp_all
  have ok': "axis c = ''x'' \<or> axis c = ''z''" using ax ok by simp
  define c1 where "c1 = c\<lparr>point_history := point_history c @ [point c],
        point := \<lparr>p_axis = axis c, p_pos = p + origin c,
                  p_voltage = volts_of_pos K (axis c) (p + origin c)\<rparr>\<rparr>"
  have g: "go_to K p sp c b = (Inr (p + origin c, 0), c1, b)"
    unfolding c1_def by (rule go_to_no_device[OF nd ok' Cons.prems(4)])
  have 1: "children_ok (gs(a \<mapsto> c1))"
    using Cons.prems(1) ax ok nd by (intro children_ok_upd) (simp_all add: c1_def)
  have 2: "set axs \<subseteq> dom (gs(a \<mapsto> c1))" using Cons.prems(2) by auto
  have 3: "set axs \<subseteq> dom new_pos" using Cons.prems(3) by simp
  from Cons.IH[OF 1 2 3 Cons.prems(4), of "acc(a \<mapsto> p + origin c)"] obtain acc' gs' where
    r: "go_to_children K axs new_pos sp (gs(a \<mapsto> c1)) (acc(a \<mapsto> p + origin c)) b = (Inr acc', gs', b)"
    and d1: "set axs \<subseteq> dom acc'" and d2: "dom (acc(a \<mapsto> p + origin c)) \<subseteq> dom acc'"
    by (elim exE conjE)
  from d2 have "a \<in> dom acc'" "dom acc \<subseteq> dom acc'" by auto
  with d1 have d: "set (a # axs) \<subseteq> dom acc' \<and> dom acc \<subseteq> dom acc'" by simp
  have "go_to_children K (a # axs) new_pos sp gs acc b = (Inr acc', gs', b)"
    by (simp add: c p g r)
  with d show ?case by (intro exI[of _ acc'] exI[of _ gs'] conjI) simp_all
qed

lemma no_daq_pos_success:
  "set axes \<subseteq> dom new_pos \<Longrightarrow> \<forall>ax \<in> set axes. ax = ''x'' \<or> ax = ''z'' \<Longrightarrow>
   \<exists>m. no_daq_pos K axes new_pos acc = Inr m"
proof (induction axes arbitrary: acc)
  case Nil
  then show ?case by simp
next
  case (Cons a axs)
  from Cons.prems(1) obtain v where v: "new_pos a = Some v" by auto
  have ok: "a = ''x'' \<or> a = ''z''" using Cons.prems(2) by simp
  have 1: "set axs \<subseteq> dom new_pos" using Cons.prems(1) by simp
  have 2: "\<forall>ax \<in> set axs. ax = ''x'' \<or> ax = ''z''" using Cons.prems(2) by simp
  from Cons.IH[OF 1 2, of "acc(a \<mapsto> v)"] obtain m where
    m: "no_daq_pos K axs new_pos (acc(a \<mapsto> v)) = Inr m" by (elim exE)
  show ?case by (simp add: v Point_pos_supported[OF ok] m)
qed

lemma g_go_to_finally_success:
  "\<forall>ax \<in> set axes. (ax = ''x'' \<or> ax = ''z'') \<and> (\<exists>c v. gs ax = Some c \<and> rb (dac_name c) = Some v) \<Longrightarrow>
   \<exists>m. g_go_to_finally K axes gs (Some rb) acc = Inr m"
proof (induction axes arbitrary: acc)
  case Nil
  then show ?case by simp
next
  case (Cons a axs)
  have a: "a \<in> set (a # axs)" by simp
  from bspec[OF Cons.prems a] obtain c v where ok: "a = ''x'' \<or> a = ''z''"
    and c: "gs a = Some c" and v: "rb (dac_name c) = Some v" by (elim exE conjE)
  have 1: "\<forall>ax \<in> set axs. (ax = ''x'' \<or> ax = ''z'') \<and> (\<exists>c v. gs ax = Some c \<and> rb (dac_name c) = Some v)"
    using Cons.prems by simp
  from Cons.IH[OF 1, of "acc(a \<mapsto> pos_of_volts K a v)"] obtain m where
    m: "g_go_to_finally K axs gs (Some rb) (acc(a \<mapsto> pos_of_volts K a v)) = Inr m" by (elim exE)
  show ?case by (simp add: c v Point_voltage_supported[OF ok] m)
qed

lemma g_go_to_speed0_success:
  assumes ch: "children_ok (galvos g)" and cd: "children_dac dac (galvos g)"
    and dm: "set (g_axis g) \<subseteq> dom (galvos g)" and np: "set (g_axis g) \<subseteq> dom new_pos"
    and dev: "case g_open_labjack g of
                None \<Rightarrow> True
              | Some l \<Rightarrow>
                  \<forall>codes. \<exists>rb b1. updater_update l codes b = (Inr rb, b1) \<and>
                    (\<forall>ax \<in> set (g_axis g). \<exists>d v. dac ax = Some d \<and> rb d = Some v)"
  shows "\<exists>r g' b'. g_go_to K 0 new_pos g b = (Inr r, g', b')"
proof -
  have z: "(0::real) \<le> 0" by simp
  from collect_success[OF dm, of pos Map.empty] obtain original_pos where
    op: "g_pos g = Inr original_pos" and od: "set (g_axis g) \<subseteq> dom original_pos"
    unfolding g_pos_def by (elim exE conjE)
  from go_to_children_success[OF ch dm np z, of K Map.empty b] obtain new_abs_pos gs where
    gc: "go_to_children K (g_axis g) new_pos 0 (galvos g) Map.empty b = (Inr new_abs_pos, gs, b)"
    and nd: "set (g_axis g) \<subseteq> dom new_abs_pos" by (elim exE conjE)
  note pres = go_to_children_ok[OF ch cd gc]
  from pres have ch': "children_ok gs" and cd': "children_dac dac gs" and dm': "dom gs = dom (galvos g)"
    by simp_all
  from MoveMultiDim_init_success[OF od nd z, of K] obtain mv where
    mv: "MoveMultiDim_init K (g_axis g) original_pos new_abs_pos 0 = Inr mv"
    and ne: "[] \<notin> set (multi_bits mv)" by (elim exE conjE)
  have okax: "\<forall>ax \<in> set (g_axis g). ax = ''x'' \<or> ax = ''z''"
  proof
    fix ax assume "ax \<in> set (g_axis g)"
    with dm obtain c where "galvos g ax = Some c" by auto
    from children_okD[OF ch this] show "ax = ''x'' \<or> ax = ''z''" by simp
  qed
  show ?thesis
  proof (cases "g_open_labjack g")
    case None
    from no_daq_pos_success[OF np okax, of K Map.empty] obtain m where
      m: "no_daq_pos K (g_axis g) new_pos Map.empty = Inr m" by (elim exE)
    have "g_go_to K 0 new_pos g b = (Inr (m, 0), g\<lparr>galvos := gs\<rparr>, b)"
      by (simp add: g_go_to_def op gc mv None m)
    then show ?thesis by (intro exI)
  next
    case (Some l)
    from dev Some have "\<exists>rb b1. updater_update l (map last (multi_bits mv)) b = (Inr rb, b1) \<and>
                    (\<forall>ax \<in> set (g_axis g). \<exists>d v. dac ax = Some d \<and> rb d = Some v)"
      by simp
    then obtain rb b1 where up: "updater_update l (map last (multi_bits mv)) b = (Inr rb, b1)"
      and cover: "\<forall>ax \<in> set (g_axis g). \<exists>d v. dac ax = Some d \<and> rb d = Some v"
      by (elim exE conjE)
    have tr: "g_go_to_try l mv 0 b = (None, Some rb, Some 0, b1)"
      using ne by (simp add: g_go_to_try_def up)
    have fin_pre: "\<forall>ax \<in> set (g_axis g). (ax = ''x'' \<or> ax = ''z'') \<and>
        (\<exists>c v. gs ax = Some c \<and> rb (dac_name c) = Some v)"
    proof
      fix ax assume ax: "ax \<in> set (g_axis g)"
      with dm dm' obtain c where c: "gs ax = Some c" by auto
      from bspec[OF cover ax] obtain d v where d: "dac ax = Some d" "rb d = Some v"
        by (elim exE conjE)
      from children_dacD[OF cd' c] d have "rb (dac_name c) = Some v" by simp
      with c bspec[OF okax ax]
      show "(ax = ''x'' \<or> ax = ''z'') \<and> (\<exists>c v. gs ax = Some c \<and> rb (dac_name c) = Some v)"
        by simp
    qed
    from g_go_to_finally_success[OF fin_pre, of K Map.empty] obtain m where
      m: "g_go_to_finally K (g_axis g) gs (Some rb) Map.empty = Inr m" by (elim exE)
    have "g_go_to_labjack K l mv 0 (g\<lparr>galvos := gs\<rparr>) b = (Inr (m, 0), g\<lparr>galvos := gs\<rparr>, b1)"
      by (simp add: g_go_to_labjack_def tr m)
    then have "g_go_to K 0 new_pos g b = (Inr (m, 0), g\<lparr>galvos := gs\<rparr>, b1)"
      by (simp add: g_go_to_def op gc mv Some)
    then show ?thesis by (intro exI)
  qed
qed

subsection \<open>The constructor of the group and its log of calls\<close>

lemma make_galvos_log_result:
  "make_galvos K axes dac pos_init gs b =
     (case make_galvos_log K axes dac pos_init gs calls b of (r, calls', b') \<Rightarrow> (r, b'))"
proof (induction axes arbitrary: gs calls b)
  case Nil
  show ?case by simp
next
  case (Cons a axs)
  show ?case
  proof (cases "dac a")
    case None
    then show ?thesis by simp
  next
    case d: (Some d)
    show ?thesis
    proof (cases "pos_init a")
      case None
      with d show ?thesis by simp
    next
      case p: (Some p)
      obtain r b1 where i: "GalvoDriver_init K a d p None b = (r, b1)"
        by (cases "GalvoDriver_init K a d p None b") simp
      show ?thesis
      proof (cases r)
        case (Inl e)
        with d p i show ?thesis by simp
      next
        case (Inr c)
        have L: "make_galvos K (a # axs) dac pos_init gs b =
            make_galvos K axs dac pos_init (gs(a \<mapsto> c)) b1"
          using d p i Inr by simp
        have R: "make_galvos_log K (a # axs) dac pos_init gs calls b =
            make_galvos_log K axs dac pos_init (gs(a \<mapsto> c)) (calls @ [a]) b1"
          using d p i Inr by simp
        show ?thesis unfolding L R by (rule Cons.IH)
      qed
    qed
  qed
qed

lemma make_galvos_log_calls:
  "make_galvos_log K axes dac pos_init gs calls b = (Inr gs', calls', b') \<Longrightarrow> calls' = calls @ axes"
proof (induction axes arbitrary: gs calls b)
  case Nil
  then show ?case by simp
next
  case (Cons a axs)
  from Cons.prems obtain d where d: "dac a = Some d"
    by (cases "dac a") simp_all
  from Cons.prems d obtain p where p: "pos_init a = Some p"
    by (cases "pos_init a") simp_all
  obtain r b1 where i: "GalvoDriver_init K a d p None b = (r, b1)"
    by (cases "GalvoDriver_init K a d p None b") simp
  from Cons.prems d p i obtain c where c: "r = Inr c"
    by (cases r) simp_all
  have "make_galvos_log K (a # axs) dac pos_init gs calls b =
      make_galvos_log K axs dac pos_init (gs(a \<mapsto> c)) (calls @ [a]) b1"
    using d p i c by simp
  with Cons.prems have
    "make_galvos_log K axs dac pos_init (gs(a \<mapsto> c)) (calls @ [a]) b1 = (Inr gs', calls', b')"
    by (simp only:)
  from Cons.IH[OF this] show ?case by simp
qed

lemma GalvoDrivers_init_log_result:
  "GalvoDrivers_init K axes dac pos_init lj b =
     (case GalvoDrivers_init_log K axes dac pos_init lj b of (r, calls, b') \<Rightarrow> (r, b'))"
  unfolding GalvoDrivers_init_def GalvoDrivers_init_log_def
    make_galvos_log_result[of K axes dac pos_init Map.empty b "[]"]
  by (auto split: option.splits sum.splits prod.splits)

lemma check_config_first:
  "\<exists>ax \<in> set axes. dac ax = None \<or> pos_init ax = None \<Longrightarrow>
   \<exists>pre ax post. axes = pre @ ax # post \<and>
      (\<forall>a \<in> set pre. dac a \<noteq> None \<and> pos_init a \<noteq> None) \<and>
      (dac ax = None \<or> pos_init ax = None) \<and>
      check_config axes dac pos_init =
        Some (KeyError (missing_msg (if dac ax = None then ''dac_name'' else ''pos_init'') ax))"
proof (induction axes)
  case Nil
  then show ?case by simp
next
  case (Cons a axs)
  show ?case
  proof (cases "dac a")
    case None
    then have "a # axs = [] @ a # axs \<and> (\<forall>a \<in> set []. dac a \<noteq> None \<and> pos_init a \<noteq> None) \<and>
        (dac a = None \<or> pos_init a = None) \<and> check_config (a # axs) dac pos_init =
        Some (KeyError (missing_msg (if dac a = None then ''dac_name'' else ''pos_init'') a))"
      by simp
    then show ?thesis by (intro exI)
  next
    case d: (Some d)
    show ?thesis
    proof (cases "pos_init a")
      case None
      with d have "a # axs = [] @ a # axs \<and> (\<forall>a \<in> set []. dac a \<noteq> None \<and> pos_init a \<noteq> None) \<and>
        (dac a = None \<or> pos_init a = None) \<and> check_config (a # axs) dac pos_init =
        Some (KeyError (missing_msg (if dac a = None then ''dac_name'' else ''pos_init'') a))"
        by simp
      then show ?thesis by (intro exI)
    next
      case p: (Some p)
      from Cons.prems obtain ax where ax: "ax \<in> set (a # axs)" "dac ax = None \<or> pos_init ax = None"
        by (elim bexE)
      have "ax \<noteq> a" using ax(2) d p by auto
      with ax(1) have "ax \<in> set axs" by simp
      with ax(2) have "\<exists>ax \<in> set axs. dac ax = None \<or> pos_init ax = None"
        by (intro bexI[of _ ax])
      from Cons.IH[OF this] obtain pre ax' post where r: "axs = pre @ ax' # post"
        "\<forall>a \<in> set pre. dac a \<noteq> None \<and> pos_init a \<noteq> None"
        "dac ax' = None \<or> pos_init ax' = None"
        "check_config axs dac pos_init =
           Some (KeyError (missing_msg (if dac ax' = None then ''dac_name'' else ''pos_init'') ax'))"
        by (elim exE conjE)
      have 1: "a # axs = (a # pre) @ ax' # post" using r(1) by simp
      have 2: "\<forall>x \<in> set (a # pre). dac x \<noteq> None \<and> pos_init x \<noteq> None"
        using r(2) d p by simp
      have "check_config (a # axs) dac pos_init = check_config axs dac pos_init"
        using d p by simp
      with r(4) have 3: "check_config (a # axs) dac pos_init =
          Some (KeyError (missing_msg (if dac ax' = None then ''dac_name'' else ''pos_init'') ax'))"
        by (simp only:)
      from 1 2 r(3) 3 show ?thesis by (intro exI[of _ "a # pre"] exI[of _ ax'] exI[of _ post] conjI)
    qed
  qed
qed

lemma GalvoDrivers_init_log_calls:
  assumes "GalvoDrivers_init_log K axes dac pos_init lj b = (Inr g, calls, b')"
  shows "calls = axes"
proof -
  from assms have cc: "check_config axes dac pos_init = None"
    by (cases "check_config axes dac pos_init") (simp_all add: GalvoDrivers_init_log_def)
  obtain r calls0 b1 where mk: "make_galvos_log K axes dac pos_init Map.empty [] b = (r, calls0, b1)"
    by (cases "make_galvos_log K axes dac pos_init Map.empty [] b") auto
  from assms cc mk obtain gs where gs: "r = Inr gs"
    by (cases r) (simp_all add: GalvoDrivers_init_log_def)
  from assms have "calls = calls0"
    by (simp add: GalvoDrivers_init_log_def cc mk gs split: if_splits sum.splits prod.splits)
  with make_galvos_log_calls[OF mk[unfolded gs]] show ?thesis by simp
qed

section \<open>The properties of the specification\<close>

text \<open>
  C1. The sentence says that an interrupted stream of the group leaves every driver at
  the position read back from the device. The handler of \<open>GalvoDrivers.go_to\<close> assigns
  the attribute \<open>voltage\<close> of each driver, which nothing reads, where the single driver
  assigns \<open>_voltage\<close>; the current Point stays the destination that the driver's own
  \<open>go_to\<close> installed before the stream. The group on "x" and "z" at 0, sent to 100 and 300
  at speed 10 and interrupted with 0.04 V and 0.12 V read back, ends with its drivers at
  100 and 300, not at 40 and 120.
\<close>

theorem group_interrupt_keeps_destination:
  "\<exists>g'. g_go_to K0 10 [''x'' \<mapsto> 100, ''z'' \<mapsto> 300] (group0 (Some (lj0 True))) [''update''] =
          (Inl KeyboardInterrupt, g',
           [''update'', ''stream_setup'', ''load_data'', ''start_stream'', ''read'']) \<and>
        map_option pos (galvos g' ''x'') = Some 100 \<and>
        map_option pos (galvos g' ''z'') = Some 300 \<and>
        map_option voltage (galvos g' ''x'') = Some (Some (4 / 100)) \<and>
        map_option voltage (galvos g' ''z'') = Some (Some (12 / 100)) \<and>
        pos_of_volts K0 ''x'' (4 / 100) = 40 \<and>
        pos_of_volts K0 ''z'' (12 / 100) = 120"
  by (simp add: group_defs driver_defs K0_def driver0_def P0_def group0_def lj0_def rb0_def Let_def)

text \<open>
  C2. A reachable GalvoDriver with a device attached starts a stream (nonzero speed,
  nonzero duration), and the stream is interrupted while the device read that follows
  returns a voltage \<open>v\<close> for the driver's register. Then \<open>go_to\<close> ends by raising
  KeyboardInterrupt, and the driver it leaves has the Point of voltage \<open>v\<close> as current
  Point, the previous Point appended to the history and nothing else changed: the
  destination appears nowhere in it.
\<close>

theorem go_to_interrupted_reads_device:
  assumes "reachable K s"
    and "open_labjack s = Some lj"
    and "Move_init K (axis s) (pos s) (new_pos + origin s) speed = Inr move"
    and "speed \<noteq> 0" and "move_t move \<noteq> 0"
    and "streamer_stream_setup lj b = (Inr (), b1)"
    and "streamer_load_data lj [move_bits move] b1 = (Inr (), b2)"
    and "streamer_start_stream lj (move_t move) b2 = (Inl Interrupted, b3)"
    and "updater_read lj b3 = (Inr rb, b4)"
    and "rb (dac_name s) = Some v"
  shows "go_to K new_pos speed s b =
     (Inl KeyboardInterrupt,
      s\<lparr>point_history := point_history s @ [point s],
        point := \<lparr>p_axis = axis s, p_pos = pos_of_volts K (axis s) v, p_voltage = v\<rparr>\<rparr>,
      b4)"
proof -
  have ok: "axis s = ''x'' \<or> axis s = ''z''" using assms(1) by (rule reachable_axis)
  have tr: "go_to_try lj move speed b = (Some KeyboardInterrupt, None, None, b3)"
    using assms(4-8) by (simp add: go_to_try_def)
  have ex: "go_to_except K lj None s b3 =
      (KeyboardInterrupt, Some rb,
       s\<lparr>point_history := point_history s @ [point s],
         point := \<lparr>p_axis = axis s, p_pos = pos_of_volts K (axis s) v, p_voltage = v\<rparr>\<rparr>, b4)"
    using assms(9,10) ok
    by (simp add: go_to_except_def voltage_set_def point_set_def Point_voltage_supported)
  have fin: "go_to_finally K
       (s\<lparr>point_history := point_history s @ [point s],
         point := \<lparr>p_axis = axis s, p_pos = pos_of_volts K (axis s) v, p_voltage = v\<rparr>\<rparr>) (Some rb) =
       Inr \<lparr>p_axis = axis s, p_pos = pos_of_volts K (axis s) v, p_voltage = v\<rparr>"
    using assms(10) ok by (simp add: go_to_finally_def Point_voltage_supported)
  show ?thesis
    using assms(2,3) by (simp add: go_to_def Let_def go_to_labjack_def tr ex fin)
qed


text \<open>
  The driver on "x" at 0 with the device whose stream is interrupted: the move to 100 at
  speed 10 stops at the 0.04 V read back, which is position 40.
\<close>

theorem go_to_interrupted_reads_device_witness:
  "reachable K0 (driver0 ''x'' ''DAC0'' (Some (lj0 True))) \<and>
   Move_init K0 ''x'' 0 100 10 = Inr \<lparr>move_t = 10, move_bits = [0, 100]\<rparr> \<and>
   streamer_start_stream (lj0 True) 10 [''update'', ''stream_setup'', ''load_data''] =
     (Inl Interrupted, [''update'', ''stream_setup'', ''load_data'', ''start_stream'']) \<and>
   updater_read (lj0 True) [''update'', ''stream_setup'', ''load_data'', ''start_stream''] =
     (Inr rb0, [''update'', ''stream_setup'', ''load_data'', ''start_stream'', ''read'']) \<and>
   rb0 ''DAC0'' = Some (4 / 100) \<and>
   go_to K0 100 10 (driver0 ''x'' ''DAC0'' (Some (lj0 True))) [''update''] =
     (Inl KeyboardInterrupt,
      (driver0 ''x'' ''DAC0'' (Some (lj0 True)))
        \<lparr>point_history := [P0 ''x'' 0, P0 ''x'' 0, P0 ''x'' 0],
         point := \<lparr>p_axis = ''x'', p_pos = 40, p_voltage = 4 / 100\<rparr>\<rparr>,
      [''update'', ''stream_setup'', ''load_data'', ''start_stream'', ''read''])"
proof -
  let ?s = "driver0 ''x'' ''DAC0'' (Some (lj0 True))"
  have r: "reachable K0 ?s"
    by (rule reachable.constructed[OF driver0_lj_constructed])
  have l: "open_labjack ?s = Some (lj0 True)" by (simp add: driver0_def)
  have m: "Move_init K0 (axis ?s) (pos ?s) (100 + origin ?s) 10 = Inr \<lparr>move_t = 10, move_bits = [0, 100]\<rparr>"
    by (simp add: driver0_def pos_def origin_def P0_def stream_move0)
  have sp: "(10::real) \<noteq> 0" by simp
  have mt: "move_t \<lparr>move_t = 10, move_bits = [0, 100]\<rparr> \<noteq> 0" by simp
  have h1: "streamer_stream_setup (lj0 True) [''update''] = (Inr (), [''update'', ''stream_setup''])"
    by (simp add: lj0_def)
  have h2: "streamer_load_data (lj0 True) [move_bits \<lparr>move_t = 10, move_bits = [0, 100]\<rparr>]
       [''update'', ''stream_setup''] = (Inr (), [''update'', ''stream_setup'', ''load_data''])"
    by (simp add: lj0_def)
  have h3: "streamer_start_stream (lj0 True) (move_t \<lparr>move_t = 10, move_bits = [0, 100]\<rparr>)
       [''update'', ''stream_setup'', ''load_data''] =
       (Inl Interrupted, [''update'', ''stream_setup'', ''load_data'', ''start_stream''])"
    by (simp add: lj0_def)
  have h4: "updater_read (lj0 True) [''update'', ''stream_setup'', ''load_data'', ''start_stream''] =
     (Inr rb0, [''update'', ''stream_setup'', ''load_data'', ''start_stream'', ''read''])"
    by (simp add: lj0_def)
  have h5: "rb0 (dac_name ?s) = Some (4 / 100)" by (simp add: rb0_def driver0_def)
  note g = go_to_interrupted_reads_device[OF r l m sp mt h1 h2 h3 h4 h5]
  have "go_to K0 100 10 ?s [''update''] =
     (Inl KeyboardInterrupt,
      ?s\<lparr>point_history := [P0 ''x'' 0, P0 ''x'' 0, P0 ''x'' 0],
         point := \<lparr>p_axis = ''x'', p_pos = 40, p_voltage = 4 / 100\<rparr>\<rparr>,
      [''update'', ''stream_setup'', ''load_data'', ''start_stream'', ''read''])"
    unfolding g by (simp add: driver0_def K0_def)
  with r stream_move0 h3 h4 h5 show ?thesis by (simp add: driver0_def)
qed

text \<open>
  C3. The sentence says that \<open>GalvoDriver(axis, dac_name, pos_init=p)\<close> without a device
  has \<open>pos == p\<close>. The constructor sets the origin to \<open>p\<close> and then calls
  \<open>go_to(p, 0)\<close>, which moves to \<open>origin + p\<close>: built with \<open>pos_init=5\<close> on axis "x", the
  driver is at 10, with origin 5 and history 5, 5.
\<close>

theorem GalvoDriver_init_5_at_10:
  "\<exists>s. GalvoDriver_init K0 ''x'' ''DAC0'' 5 None ([]::string list) = (Inr s, []) \<and>
       pos s = 10 \<and> origin s = 5 \<and> pos_history s = [5, 5]"
  by (simp add: GalvoDriver_init_no_device pos_def origin_def pos_history_def)

text \<open>
  C4. Whenever \<open>go_to\<close> returns normally, with or without a device, the history is the
  old history followed by the Point that was current before the call: one element longer,
  the old entries unchanged and in place, the last entry the previous current Point. The
  new current Point is the Point of the position origin + requested position.
\<close>

theorem go_to_appends_previous_point:
  assumes "go_to K new_pos speed s b = (Inr r, s', b')"
  shows "point_history s' = point_history s @ [point s] \<and>
         length (point_history s') = length (point_history s) + 1 \<and>
         last (point_history s') = point s \<and>
         take (length (point_history s)) (point_history s') = point_history s \<and>
         Point_pos K (axis s) (new_pos + origin s) = Inr (point s')"
proof -
  have "Point_pos K (axis s) (new_pos + origin s) = Inr (point s') \<and>
     point_history s' = point_history s @ [point s]"
  proof (cases "Move_init K (axis s) (pos s) (new_pos + origin s) speed")
    case (Inl e)
    with assms show ?thesis by (simp add: go_to_def Let_def)
  next
    case (Inr move)
    show ?thesis
    proof (cases "open_labjack s")
      case None
      obtain u s1 where ps: "pos_set K (new_pos + origin s) s = (u, s1)"
        by (cases "pos_set K (new_pos + origin s) s") auto
      from assms have "(\<exists>w. u = Inr w) \<and> s1 = s'"
        unfolding go_to_def Let_def Inr None
        by (auto simp: ps split: sum.splits)
      with pos_set_Inr ps show ?thesis by auto
    next
      case (Some lj)
      from assms have "go_to_labjack K lj move (new_pos + origin s) speed s b = (Inr r, s', b')"
        unfolding go_to_def Let_def Inr Some by simp
      from go_to_labjack_Inr[OF this] show ?thesis .
    qed
  qed
  then show ?thesis by simp
qed


text \<open>
  A completed move without a device, and a completed stream with one.
\<close>

theorem go_to_appends_previous_point_witness:
  "go_to K0 100 0 (driver0 ''x'' ''DAC0'' None) [] =
     (Inr (100, 0),
      (driver0 ''x'' ''DAC0'' None)\<lparr>point_history := [P0 ''x'' 0, P0 ''x'' 0, P0 ''x'' 0],
                                     point := P0 ''x'' 100\<rparr>, []) \<and>
   go_to K0 100 10 (driver0 ''x'' ''DAC0'' (Some (lj0 False))) [''update''] =
     (Inr (40, 10),
      (driver0 ''x'' ''DAC0'' (Some (lj0 False)))\<lparr>point_history := [P0 ''x'' 0, P0 ''x'' 0, P0 ''x'' 0],
                                                  point := P0 ''x'' 100\<rparr>,
      [''update'', ''stream_setup'', ''load_data'', ''start_stream'', ''read'']) \<and>
   point_history ((driver0 ''x'' ''DAC0'' (Some (lj0 False)))\<lparr>point_history := [P0 ''x'' 0, P0 ''x'' 0, P0 ''x'' 0],
                                                  point := P0 ''x'' 100\<rparr>) =
     point_history (driver0 ''x'' ''DAC0'' (Some (lj0 False))) @ [point (driver0 ''x'' ''DAC0'' (Some (lj0 False)))] \<and>
   point_history ((driver0 ''x'' ''DAC0'' None)\<lparr>point_history := [P0 ''x'' 0, P0 ''x'' 0, P0 ''x'' 0],
                                                  point := P0 ''x'' 100\<rparr>) =
     point_history (driver0 ''x'' ''DAC0'' None) @ [point (driver0 ''x'' ''DAC0'' None)]"
proof -
  have a: "go_to K0 100 0 (driver0 ''x'' ''DAC0'' None) ([]::string list) =
     (Inr (100, 0),
      (driver0 ''x'' ''DAC0'' None)\<lparr>point_history := [P0 ''x'' 0, P0 ''x'' 0, P0 ''x'' 0],
                                     point := P0 ''x'' 100\<rparr>, [])"
    by (simp add: driver_defs K0_def driver0_def P0_def)
  have b: "go_to K0 100 10 (driver0 ''x'' ''DAC0'' (Some (lj0 False))) [''update''] =
     (Inr (40, 10),
      (driver0 ''x'' ''DAC0'' (Some (lj0 False)))\<lparr>point_history := [P0 ''x'' 0, P0 ''x'' 0, P0 ''x'' 0],
                                                  point := P0 ''x'' 100\<rparr>,
      [''update'', ''stream_setup'', ''load_data'', ''start_stream'', ''read''])"
    by (simp add: go_to_def origin_def pos_def driver0_def P0_def stream_move0)
       (simp add: go_to_labjack_def go_to_try_def go_to_finally_def pos_set_def point_set_def
          Point_pos_def Point_voltage_def lj0_def rb0_def K0_def)
  have c: "point_history ((driver0 ''x'' ''DAC0'' (Some (lj0 False)))\<lparr>point_history := [P0 ''x'' 0, P0 ''x'' 0, P0 ''x'' 0],
                                                  point := P0 ''x'' 100\<rparr>) =
     point_history (driver0 ''x'' ''DAC0'' (Some (lj0 False))) @ [point (driver0 ''x'' ''DAC0'' (Some (lj0 False)))]"
    by (rule conjunct1[OF go_to_appends_previous_point[OF b]])
  have d: "point_history ((driver0 ''x'' ''DAC0'' None)\<lparr>point_history := [P0 ''x'' 0, P0 ''x'' 0, P0 ''x'' 0],
                                                  point := P0 ''x'' 100\<rparr>) =
     point_history (driver0 ''x'' ''DAC0'' None) @ [point (driver0 ''x'' ''DAC0'' None)]"
    by (rule conjunct1[OF go_to_appends_previous_point[OF a]])
  from a b c d show ?thesis by (intro conjI)
qed

text \<open>
  C5. The session of the specification, for every calibration: a driver on "x" built
  at 0 without a device; \<open>go_to(100, 0)\<close> returns (100, 0) and \<open>pos\<close> is 100;
  \<open>set_origin(100)\<close> makes \<open>rel_pos\<close> 0; \<open>go_to(50, 0)\<close> returns (150, 0), \<open>pos\<close> is 150
  and \<open>rel_pos\<close> is 50. The device state is never touched.
\<close>

theorem example_session:
  "\<exists>s0 s1 s2 s3.
     GalvoDriver_init K ''x'' dac 0 None b = (Inr s0, b) \<and>
     go_to K 100 0 s0 b = (Inr (100, 0), s1, b) \<and> pos s1 = 100 \<and>
     set_origin K (Some 100) s1 = (Inr (), s2) \<and> rel_pos K s2 = Inr 0 \<and>
     go_to K 50 0 s2 b = (Inr (150, 0), s3, b) \<and> pos s3 = 150 \<and> rel_pos K s3 = Inr 50"
  by (simp add: GalvoDriver_init_no_device) (simp add: driver_defs Let_def)



text \<open>
  C7. The sentence says that the constructor of the group succeeds whenever both
  dictionaries have an entry for every declared axis. With the single declared axis "y"
  and both entries present, the constructor of the driver refuses the axis and the
  construction ends in its ValueError.
\<close>

theorem GalvoDrivers_init_unsupported_axis:
  "[''y'' \<mapsto> ''DAC0''] ''y'' = Some ''DAC0'' \<and> [''y'' \<mapsto> (0::real)] ''y'' = Some 0 \<and>
   GalvoDrivers_init K0 [''y''] [''y'' \<mapsto> ''DAC0''] [''y'' \<mapsto> 0] None ([]::string list) =
     (Inl ValueError, [])"
  by (simp add: GalvoDrivers_init_def GalvoDriver_init_def)

text \<open>
  C7, as amended. When \<open>dac_name\<close> or \<open>pos_init\<close> lacks a declared axis, the constructor
  raises the KeyError whose message names the first such axis in the order of the
  declared axes: every axis before it has both entries, and the message says \<open>dac_name\<close>
  when that dictionary lacks the axis and \<open>pos_init\<close> otherwise. It returns no group, leaves
  the device untouched and has called \<open>GalvoDriver(...)\<close> for no axis: the error comes from
  the first loop, before any per-axis controller is built. The construction succeeds,
  having called \<open>GalvoDriver(...)\<close> once for each declared axis in order, when both
  dictionaries cover every declared axis, every declared axis is "x" or "z", \<open>pos_init\<close>
  has no key \<open>speed\<close> or \<open>self\<close>, and the device, if there is one, answers the immediate
  write with a read-back that holds the register of every axis.
\<close>

theorem GalvoDrivers_init_config:
  "((\<exists>ax \<in> set axes. dac ax = None \<or> pos_init ax = None) \<longrightarrow>
      (\<exists>pre ax post.
         axes = pre @ ax # post \<and>
         (\<forall>a \<in> set pre. dac a \<noteq> None \<and> pos_init a \<noteq> None) \<and>
         (dac ax = None \<or> pos_init ax = None) \<and>
         GalvoDrivers_init K axes dac pos_init lj b =
           (Inl (KeyError (missing_msg (if dac ax = None then ''dac_name'' else ''pos_init'') ax)),
            b) \<and>
         GalvoDrivers_init_log K axes dac pos_init lj b =
           (Inl (KeyError (missing_msg (if dac ax = None then ''dac_name'' else ''pos_init'') ax)),
            [], b))) \<and>
   ((\<forall>ax \<in> set axes. dac ax \<noteq> None \<and> pos_init ax \<noteq> None \<and> ax \<in> set [''x'', ''z'']) \<and>
    ''speed'' \<notin> dom pos_init \<and> ''self'' \<notin> dom pos_init \<and>
    (case lj of
       None \<Rightarrow> True
     | Some l \<Rightarrow>
         \<forall>codes. \<exists>rb b1. updater_update l codes b = (Inr rb, b1) \<and>
           (\<forall>ax \<in> set axes. \<exists>d v. dac ax = Some d \<and> rb d = Some v)) \<longrightarrow>
      (\<exists>g b'. GalvoDrivers_init K axes dac pos_init lj b = (Inr g, b') \<and>
              GalvoDrivers_init_log K axes dac pos_init lj b = (Inr g, axes, b')))"
proof (intro conjI impI)
  assume "\<exists>ax \<in> set axes. dac ax = None \<or> pos_init ax = None"
  from check_config_first[OF this] obtain pre ax post where ax: "axes = pre @ ax # post"
    "\<forall>a \<in> set pre. dac a \<noteq> None \<and> pos_init a \<noteq> None"
    "dac ax = None \<or> pos_init ax = None"
    "check_config axes dac pos_init =
       Some (KeyError (missing_msg (if dac ax = None then ''dac_name'' else ''pos_init'') ax))"
    by (elim exE conjE)
  have 1: "GalvoDrivers_init K axes dac pos_init lj b =
           (Inl (KeyError (missing_msg (if dac ax = None then ''dac_name'' else ''pos_init'') ax)), b)"
    unfolding GalvoDrivers_init_def ax(4) by simp
  have 2: "GalvoDrivers_init_log K axes dac pos_init lj b =
           (Inl (KeyError (missing_msg (if dac ax = None then ''dac_name'' else ''pos_init'') ax)), [], b)"
    unfolding GalvoDrivers_init_log_def ax(4) by simp
  from ax(1,2,3) 1 2 show "\<exists>pre ax post.
         axes = pre @ ax # post \<and>
         (\<forall>a \<in> set pre. dac a \<noteq> None \<and> pos_init a \<noteq> None) \<and>
         (dac ax = None \<or> pos_init ax = None) \<and>
         GalvoDrivers_init K axes dac pos_init lj b =
           (Inl (KeyError (missing_msg (if dac ax = None then ''dac_name'' else ''pos_init'') ax)),
            b) \<and>
         GalvoDrivers_init_log K axes dac pos_init lj b =
           (Inl (KeyError (missing_msg (if dac ax = None then ''dac_name'' else ''pos_init'') ax)),
            [], b)"
    by (intro exI[of _ pre] exI[of _ ax] exI[of _ post] conjI)
next
  assume h: "(\<forall>ax \<in> set axes. dac ax \<noteq> None \<and> pos_init ax \<noteq> None \<and> ax \<in> set [''x'', ''z'']) \<and>
    ''speed'' \<notin> dom pos_init \<and> ''self'' \<notin> dom pos_init \<and>
    (case lj of
       None \<Rightarrow> True
     | Some l \<Rightarrow>
         \<forall>codes. \<exists>rb b1. updater_update l codes b = (Inr rb, b1) \<and>
           (\<forall>ax \<in> set axes. \<exists>d v. dac ax = Some d \<and> rb d = Some v))"
  then have all: "\<forall>ax \<in> set axes. dac ax \<noteq> None \<and> pos_init ax \<noteq> None \<and> ax \<in> set [''x'', ''z'']"
    and kw: "''speed'' \<notin> dom pos_init" "''self'' \<notin> dom pos_init"
    and dev: "case lj of
       None \<Rightarrow> True
     | Some l \<Rightarrow>
         \<forall>codes. \<exists>rb b1. updater_update l codes b = (Inr rb, b1) \<and>
           (\<forall>ax \<in> set axes. \<exists>d v. dac ax = Some d \<and> rb d = Some v)"
    by blast+
  have cc: "check_config axes dac pos_init = None"
    using all by (intro check_config_complete) simp
  have pre: "\<forall>ax \<in> set axes. (\<exists>d. dac ax = Some d) \<and> (\<exists>p. pos_init ax = Some p) \<and> (ax = ''x'' \<or> ax = ''z'')"
    using all by simp
  from make_galvos_success[OF pre, of K Map.empty b] obtain gs where
    mk: "make_galvos K axes dac pos_init Map.empty b = (Inr gs, b)" by (elim exE)
  have e1: "children_ok (Map.empty :: string \<rightharpoonup> 'a GalvoDriver)" by (simp add: children_ok_def)
  have e2: "children_dac dac (Map.empty :: string \<rightharpoonup> 'a GalvoDriver)" by (simp add: children_dac_def)
  from make_galvos_ok[OF e1 e2 mk] have ch: "children_ok gs" and cd: "children_dac dac gs"
    and dm: "set axes \<subseteq> dom gs" by simp_all
  define g0 where "g0 = \<lparr>g_axis = axes, g_dac_name = dac, g_open_labjack = lj, galvos = gs\<rparr>"
  have np: "set axes \<subseteq> dom pos_init" using all by auto
  have ch0: "children_ok (galvos g0)" using ch by (simp add: g0_def)
  have cd0: "children_dac dac (galvos g0)" using cd by (simp add: g0_def)
  have dm0: "set (g_axis g0) \<subseteq> dom (galvos g0)" using dm by (simp add: g0_def)
  have np0: "set (g_axis g0) \<subseteq> dom pos_init" using np by (simp add: g0_def)
  have ga: "g_axis g0 = axes" "g_open_labjack g0 = lj" by (simp_all add: g0_def)
  have dev0: "case g_open_labjack g0 of
                None \<Rightarrow> True
              | Some l \<Rightarrow>
                  \<forall>codes. \<exists>rb b1. updater_update l codes b = (Inr rb, b1) \<and>
                    (\<forall>ax \<in> set (g_axis g0). \<exists>d v. dac ax = Some d \<and> rb d = Some v)"
    unfolding ga by (rule dev)
  from g_go_to_speed0_success[OF ch0 cd0 dm0 np0 dev0, of K] obtain r g' b' where
    go: "g_go_to K 0 pos_init g0 b = (Inr r, g', b')" by (elim exE)
  have i: "GalvoDrivers_init K axes dac pos_init lj b = (Inr g', b')"
    using kw by (simp add: GalvoDrivers_init_def cc mk g0_def[symmetric] go domIff)
  obtain r1 calls bb where l: "GalvoDrivers_init_log K axes dac pos_init lj b = (r1, calls, bb)"
    by (cases "GalvoDrivers_init_log K axes dac pos_init lj b") auto
  from i have "r1 = Inr g'" "bb = b'"
    unfolding GalvoDrivers_init_log_result l by simp_all
  with l have l': "GalvoDrivers_init_log K axes dac pos_init lj b = (Inr g', calls, b')" by simp
  from GalvoDrivers_init_log_calls[OF l'] l'
  have "GalvoDrivers_init_log K axes dac pos_init lj b = (Inr g', axes, b')" by simp
  with i show "\<exists>g b'. GalvoDrivers_init K axes dac pos_init lj b = (Inr g, b') \<and>
              GalvoDrivers_init_log K axes dac pos_init lj b = (Inr g, axes, b')"
    by (intro exI[of _ g'] exI[of _ b'] conjI)
qed

text \<open>
  With \<open>dac_name\<close> lacking "z" and \<open>pos_init\<close> lacking "x" on the axes "x", "z", the error
  names "x" and \<open>pos_init\<close>, the first of the two, and no controller was built; with both
  dictionaries complete and a device attached the group is built from two controllers.
\<close>

theorem GalvoDrivers_init_config_witness:
  "GalvoDrivers_init K0 [''x'', ''z''] [''x'' \<mapsto> ''DAC0''] [''z'' \<mapsto> 0] None ([]::string list) =
     (Inl (KeyError (missing_msg ''pos_init'' ''x'')), []) \<and>
   GalvoDrivers_init_log K0 [''x'', ''z''] [''x'' \<mapsto> ''DAC0''] [''z'' \<mapsto> 0] None ([]::string list) =
     (Inl (KeyError (missing_msg ''pos_init'' ''x'')), [], []) \<and>
   (\<exists>g b'. GalvoDrivers_init K0 [''x'', ''z''] [''x'' \<mapsto> ''DAC0'', ''z'' \<mapsto> ''DAC1'']
       [''x'' \<mapsto> 0, ''z'' \<mapsto> 0] (Some (lj0 False)) [] = (Inr g, b') \<and>
     GalvoDrivers_init_log K0 [''x'', ''z''] [''x'' \<mapsto> ''DAC0'', ''z'' \<mapsto> ''DAC1'']
       [''x'' \<mapsto> 0, ''z'' \<mapsto> 0] (Some (lj0 False)) [] = (Inr g, [''x'', ''z''], b'))"
proof -
  let ?dac = "[''x'' \<mapsto> ''DAC0''] :: string \<rightharpoonup> string"
  let ?pos = "[''z'' \<mapsto> 0] :: string \<rightharpoonup> real"
  have miss: "\<exists>ax \<in> set [''x'', ''z'']. ?dac ax = None \<or> ?pos ax = None"
    by simp
  from mp[OF conjunct1[OF GalvoDrivers_init_config[of "[''x'', ''z'']" ?dac ?pos K0 None "[]"]] miss]
  obtain pre ax post where sp: "[''x'', ''z''] = pre @ ax # post"
    and full: "\<forall>a \<in> set pre. ?dac a \<noteq> None \<and> ?pos a \<noteq> None"
    and r: "GalvoDrivers_init K0 [''x'', ''z''] ?dac ?pos None ([]::string list) =
      (Inl (KeyError (missing_msg (if ?dac ax = None then ''dac_name'' else ''pos_init'') ax)), [])"
    and rl: "GalvoDrivers_init_log K0 [''x'', ''z''] ?dac ?pos None ([]::string list) =
      (Inl (KeyError (missing_msg (if ?dac ax = None then ''dac_name'' else ''pos_init'') ax)), [], [])"
    by (elim exE conjE)
  have ax: "ax = ''x''"
  proof (cases pre)
    case Nil
    with sp show ?thesis by simp
  next
    case (Cons y ys)
    with sp have "y = ''x''" by simp
    with Cons have "''x'' \<in> set pre" by simp
    from bspec[OF full this] have "?pos ''x'' \<noteq> None" by (elim conjE)
    then show ?thesis by simp
  qed
  have k: "(if ?dac ''x'' = None then ''dac_name'' else ''pos_init'') = ''pos_init''" by simp
  note r' = r[unfolded ax k]
  note rl' = rl[unfolded ax k]
  let ?dac2 = "[''x'' \<mapsto> ''DAC0'', ''z'' \<mapsto> ''DAC1''] :: string \<rightharpoonup> string"
  let ?pos2 = "[''x'' \<mapsto> 0, ''z'' \<mapsto> 0] :: string \<rightharpoonup> real"
  have pre: "(\<forall>ax \<in> set [''x'', ''z'']. ?dac2 ax \<noteq> None \<and> ?pos2 ax \<noteq> None \<and> ax \<in> set [''x'', ''z'']) \<and>
    ''speed'' \<notin> dom ?pos2 \<and> ''self'' \<notin> dom ?pos2 \<and>
    (case Some (lj0 False) of
       None \<Rightarrow> True
     | Some l \<Rightarrow>
         \<forall>codes. \<exists>rb b1. updater_update l codes ([]::string list) = (Inr rb, b1) \<and>
           (\<forall>ax \<in> set [''x'', ''z'']. \<exists>d v. ?dac2 ax = Some d \<and> rb d = Some v))"
    by (simp add: lj0_def rb0_def)
       (rule conjI, rule exI[of _ "1 / 25"], simp, rule exI[of _ "3 / 25"], simp)
  note ok = mp[OF conjunct2[OF GalvoDrivers_init_config[of "[''x'', ''z'']" ?dac2 ?pos2 K0 "Some (lj0 False)" "[]"]] pre]
  from r' rl' ok show ?thesis by (intro conjI)
qed

text \<open>
  C8. The constructor of GalvoDriver called with an axis that is neither "x" nor "z" raises
  the ValueError of the axis check, returns no object and leaves the device untouched;
  called with "x" or "z" it does not raise that error, with or without a device.
\<close>

theorem GalvoDriver_init_axis_check:
  "(ax \<notin> set [''x'', ''z''] \<longrightarrow> GalvoDriver_init K ax dac p lj b = (Inl ValueError, b)) \<and>
   (ax \<in> set [''x'', ''z''] \<longrightarrow> fst (GalvoDriver_init K ax dac p lj b) \<noteq> Inl ValueError)"
proof (intro conjI impI)
  assume "ax \<notin> set [''x'', ''z'']"
  then show "GalvoDriver_init K ax dac p lj b = (Inl ValueError, b)"
    by (simp add: GalvoDriver_init_def)
next
  assume "ax \<in> set [''x'', ''z'']"
  then have ok: "ax = ''x'' \<or> ax = ''z''" by simp
  define s1 where "s1 = \<lparr>axis = ax, dac_name = dac, open_labjack = lj,
      point = \<lparr>p_axis = ax, p_pos = p, p_voltage = volts_of_pos K ax p\<rparr>,
      point_history = [\<lparr>p_axis = ax, p_pos = p, p_voltage = volts_of_pos K ax p\<rparr>],
      origin_point = \<lparr>p_axis = ax, p_pos = p, p_voltage = volts_of_pos K ax p\<rparr>,
      voltage = None\<rparr>"
  have ok1: "axis s1 = ''x'' \<or> axis s1 = ''z''" using ok by (simp add: s1_def)
  obtain r s2 b2 where g: "go_to K p 0 s1 b = (r, s2, b2)"
    by (cases "go_to K p 0 s1 b") auto
  show "fst (GalvoDriver_init K ax dac p lj b) \<noteq> Inl ValueError"
  proof (cases r)
    case (Inl e)
    with go_to_error[OF ok1 g[unfolded Inl]] show ?thesis
      unfolding GalvoDriver_init_supported[OF ok] s1_def[symmetric] g by simp
  next
    case (Inr v)
    then show ?thesis
      unfolding GalvoDriver_init_supported[OF ok] s1_def[symmetric] g by simp
  qed
qed


text \<open>Axis "y" is refused and axis "z" is not, here with a device attached.\<close>

theorem GalvoDriver_init_axis_check_witness:
  "''y'' \<notin> set [''x'', ''z''] \<and>
   GalvoDriver_init K0 ''y'' ''DAC0'' 0 (Some (lj0 False)) [] = (Inl ValueError, []) \<and>
   ''z'' \<in> set [''x'', ''z''] \<and>
   fst (GalvoDriver_init K0 ''z'' ''DAC1'' 7 (Some (lj0 False)) []) \<noteq> Inl ValueError"
  using GalvoDriver_init_axis_check[of "''y''" K0 "''DAC0''" 0 "Some (lj0 False)" "[]"]
    GalvoDriver_init_axis_check[of "''z''" K0 "''DAC1''" 7 "Some (lj0 False)" "[]"]
  by simp

text \<open>
  C9. In every group that the constructor returns, every declared axis has a driver, and
  that driver has no device: its \<open>open_labjack\<close> is absent, so whatever \<open>go_to\<close> it runs
  leaves the device state as it found it.
\<close>

theorem children_have_no_device:
  assumes "GalvoDrivers_init K axes dac pos_init lj b = (Inr g, b')"
  shows "g_axis g = axes \<and>
         (\<forall>ax \<in> set axes. \<exists>c. galvos g ax = Some c \<and> axis c = ax \<and> open_labjack c = None \<and>
            (\<forall>p sp b0. snd (snd (go_to K p sp c b0)) = b0))"
proof -
  note ok = GalvoDrivers_init_ok[OF assms]
  have "\<exists>c. galvos g ax = Some c \<and> axis c = ax \<and> open_labjack c = None \<and>
            (\<forall>p sp b0. snd (snd (go_to K p sp c b0)) = b0)" if "ax \<in> set axes" for ax
  proof -
    from ok that obtain c where c: "galvos g ax = Some c" by auto
    from ok have "children_ok (galvos g)" by simp
    note k = children_okD[OF this c]
    then have nd: "open_labjack c = None" by simp
    have "snd (snd (go_to K p sp c b0)) = b0" for p sp b0
      using go_to_device_untouched[OF nd, of K p sp b0] by (cases "go_to K p sp c b0") simp
    with c k show ?thesis by simp
  qed
  with ok show ?thesis by simp
qed

text \<open>The group on "x" and "z" built with a device attached.\<close>

theorem children_have_no_device_witness:
  "GalvoDrivers_init K0 [''x'', ''z''] [''x'' \<mapsto> ''DAC0'', ''z'' \<mapsto> ''DAC1'']
     [''x'' \<mapsto> 0, ''z'' \<mapsto> 0] (Some (lj0 False)) [] =
     (Inr (group0 (Some (lj0 False))), [''update'']) \<and>
   (\<exists>c. galvos (group0 (Some (lj0 False))) ''x'' = Some c \<and> axis c = ''x'' \<and>
        open_labjack c = None \<and> (\<forall>p sp b0. snd (snd (go_to K0 p sp c b0)) = b0)) \<and>
   (\<exists>c. galvos (group0 (Some (lj0 False))) ''z'' = Some c \<and> axis c = ''z'' \<and>
        open_labjack c = None \<and> (\<forall>p sp b0. snd (snd (go_to K0 p sp c b0)) = b0))"
proof -
  note built = group0_lj_constructed[of False]
  note all = conjunct2[OF children_have_no_device[OF built]]
  have x: "''x'' \<in> set [''x'', ''z'']" by simp
  have z: "''z'' \<in> set [''x'', ''z'']" by simp
  from built bspec[OF all x] bspec[OF all z] show ?thesis by (intro conjI)
qed

text \<open>
  C10. \<open>GalvoDrivers.set_origin\<close> called with at least one keyword on a group as the
  constructor leaves it returns normally. The driver of every declared axis that has a
  keyword gets the Point of the given position as origin, the driver of every other
  declared axis is unchanged, and no driver's current Point or history changes.
\<close>

theorem g_set_origin_partial:
  assumes "group_ok g" and "orig \<noteq> []"
  shows "\<exists>g'. g_set_origin K orig g = (Inr (), g') \<and>
           g_axis g' = g_axis g \<and> g_dac_name g' = g_dac_name g \<and>
           g_open_labjack g' = g_open_labjack g \<and>
           (\<forall>ax. ax \<notin> set (g_axis g) \<longrightarrow> galvos g' ax = galvos g ax) \<and>
           (\<forall>ax \<in> set (g_axis g). \<exists>c c'.
              galvos g ax = Some c \<and> galvos g' ax = Some c' \<and>
              c' = (case map_of orig ax of
                      None \<Rightarrow> c
                    | Some v \<Rightarrow>
                        c\<lparr>origin_point :=
                            \<lparr>p_axis = ax, p_pos = v, p_voltage = volts_of_pos K ax v\<rparr>\<rparr>) \<and>
              point c' = point c \<and> point_history c' = point_history c)"
proof -
  note pre = group_ok_children[OF assms(1)]
  let ?gs = "\<lambda>ax. if ax \<in> set (g_axis g) then
               (case map_of orig ax of
                  None \<Rightarrow> galvos g ax
                | Some v \<Rightarrow>
                    map_option
                      (\<lambda>c. c\<lparr>origin_point :=
                               \<lparr>p_axis = ax, p_pos = v, p_voltage = volts_of_pos K ax v\<rparr>\<rparr>)
                      (galvos g ax))
             else galvos g ax"
  let ?g = "g\<lparr>galvos := ?gs\<rparr>"
  have res: "g_set_origin K orig g = (Inr (), ?g)"
    by (rule g_set_origin_result[OF assms])
  have f1: "g_axis ?g = g_axis g" by simp
  have f2: "g_dac_name ?g = g_dac_name g" by simp
  have f3: "g_open_labjack ?g = g_open_labjack g" by simp
  have out: "\<forall>ax. ax \<notin> set (g_axis g) \<longrightarrow> galvos ?g ax = galvos g ax"
    by simp
  have inn: "\<forall>ax \<in> set (g_axis g). \<exists>c c'. galvos g ax = Some c \<and> galvos ?g ax = Some c' \<and>
              c' = (case map_of orig ax of
                      None \<Rightarrow> c
                    | Some v \<Rightarrow>
                        c\<lparr>origin_point :=
                            \<lparr>p_axis = ax, p_pos = v, p_voltage = volts_of_pos K ax v\<rparr>\<rparr>) \<and>
              point c' = point c \<and> point_history c' = point_history c"
  proof
    fix ax assume ax: "ax \<in> set (g_axis g)"
    from bspec[OF pre ax] obtain c where c: "galvos g ax = Some c" by (elim exE conjE)
    show "\<exists>c c'. galvos g ax = Some c \<and> galvos ?g ax = Some c' \<and>
              c' = (case map_of orig ax of
                      None \<Rightarrow> c
                    | Some v \<Rightarrow>
                        c\<lparr>origin_point :=
                            \<lparr>p_axis = ax, p_pos = v, p_voltage = volts_of_pos K ax v\<rparr>\<rparr>) \<and>
              point c' = point c \<and> point_history c' = point_history c"
      using ax c by (cases "map_of orig ax") simp_all
  qed
  from res f1 f2 f3 out inn show ?thesis by (intro exI[of _ ?g] conjI)
qed

text \<open>
  The group on "x" and "z" with only \<open>x=300\<close> given: a strict subset of the axes.
\<close>

theorem g_set_origin_partial_witness:
  "\<exists>g'. g_set_origin K0 [(''x'', 300)] (group0 None) = (Inr (), g') \<and>
     (\<exists>c c'. galvos (group0 None) ''x'' = Some c \<and> galvos g' ''x'' = Some c' \<and>
        c' = c\<lparr>origin_point := \<lparr>p_axis = ''x'', p_pos = 300, p_voltage = volts_of_pos K0 ''x'' 300\<rparr>\<rparr> \<and>
        point c' = point c \<and> point_history c' = point_history c) \<and>
     (\<exists>c c'. galvos (group0 None) ''z'' = Some c \<and> galvos g' ''z'' = Some c' \<and>
        c' = c \<and> point c' = point c \<and> point_history c' = point_history c)"
proof -
  have d: "[(''x'', 300::real)] \<noteq> []" by simp
  from g_set_origin_partial[OF group0_ok d, of K0] obtain g' where
    r: "g_set_origin K0 [(''x'', 300)] (group0 None) = (Inr (), g')" and
    a: "\<forall>ax \<in> set (g_axis (group0 None)). \<exists>c c'.
              galvos (group0 None) ax = Some c \<and> galvos g' ax = Some c' \<and>
              c' = (case map_of [(''x'', 300::real)] ax of
                      None \<Rightarrow> c
                    | Some v \<Rightarrow>
                        c\<lparr>origin_point :=
                            \<lparr>p_axis = ax, p_pos = v, p_voltage = volts_of_pos K0 ax v\<rparr>\<rparr>) \<and>
              point c' = point c \<and> point_history c' = point_history c"
    by (elim exE conjE)
  have x: "''x'' \<in> set (g_axis (group0 None))" by (simp add: group0_def)
  have z: "''z'' \<in> set (g_axis (group0 None))" by (simp add: group0_def)
  have cx: "(case map_of [(''x'', 300::real)] ''x'' of None \<Rightarrow> c | Some v \<Rightarrow> f v) = f 300" for c :: "'a" and f
    by simp
  have cz: "(case map_of [(''x'', 300::real)] ''z'' of None \<Rightarrow> c | Some v \<Rightarrow> f v) = c" for c :: "'a" and f
    by simp
  note ax = bspec[OF a x, unfolded cx]
  note az = bspec[OF a z, unfolded cz]
  from r ax az show ?thesis by (intro exI[of _ g'] conjI)
qed

end
